theory Spec2Isabelle
  imports Main "HOL-Library.Word" "HOL-Library.Sublist"
begin

section \<open>C strings and the libc functions the handlers call\<close>

text \<open>
  Bytes are \<^typ>\<open>char\<close>, buffers are \<^typ>\<open>string\<close>. A C string is the part of a buffer
  before its first NUL byte; \<open>strlen\<close>, \<open>strstr\<close>, \<open>strchr\<close>, \<open>strrchr\<close> and \<open>atoi\<close>
  only ever see that part.
\<close>

definition NUL :: char where
  "NUL = CHR 0x00"

definition CR :: char where
  "CR = CHR 0x0D"

definition LF :: char where
  "LF = CHR 0x0A"

definition DQ :: char where
  "DQ = CHR 0x22"

definition SQ :: char where
  "SQ = CHR 0x27"

definition CRLF :: string where
  "CRLF = [CR, LF]"

definition cstr :: "string \<Rightarrow> string" where
  "cstr s = takeWhile (\<lambda>c. c \<noteq> NUL) s"

text \<open>Offset of the first occurrence of \<open>pat\<close> in a byte sequence.\<close>

fun find_sub :: "string \<Rightarrow> string \<Rightarrow> nat option" where
  "find_sub pat [] = (if pat = [] then Some 0 else None)"
| "find_sub pat (c # cs) =
     (if prefix pat (c # cs) then Some 0 else map_option Suc (find_sub pat cs))"

text \<open>\<open>strstr(hay, needle)\<close>: the scan stops at the first NUL byte of \<open>hay\<close>.\<close>

definition strstr :: "string \<Rightarrow> string \<Rightarrow> nat option" where
  "strstr hay needle = find_sub needle (cstr hay)"

fun find_char :: "char \<Rightarrow> string \<Rightarrow> nat option" where
  "find_char c [] = None"
| "find_char c (x # xs) = (if x = c then Some 0 else map_option Suc (find_char c xs))"

definition strchr :: "string \<Rightarrow> char \<Rightarrow> nat option" where
  "strchr s c = find_char c (cstr s)"

definition strrchr :: "string \<Rightarrow> char \<Rightarrow> nat option" where
  "strrchr s c =
     (let t = cstr s
      in if c \<in> set t
         then Some (length t - Suc (length (takeWhile (\<lambda>x. x \<noteq> c) (rev t))))
         else None)"

definition is_space :: "char \<Rightarrow> bool" where
  "is_space c = (c \<in> set [CHR 0x20, CHR 0x09, CHR 0x0A, CHR 0x0B, CHR 0x0C, CHR 0x0D])"

definition is_digit :: "char \<Rightarrow> bool" where
  "is_digit c = (48 \<le> (of_char c :: nat) \<and> (of_char c :: nat) \<le> 57)"

fun digits_val :: "nat \<Rightarrow> string \<Rightarrow> nat" where
  "digits_val acc [] = acc"
| "digits_val acc (c # cs) =
     (if is_digit c then digits_val (acc * 10 + (of_char c - 48)) cs else acc)"

text \<open>
  \<open>atoi\<close> as the C library of the target implements it: leading white space, an optional
  sign, decimal digits; a value outside the 32-bit \<open>int\<close> range saturates.
\<close>

definition atoi :: "string \<Rightarrow> int" where
  "atoi s =
     (case dropWhile is_space (cstr s) of
        [] \<Rightarrow> 0
      | c # cs \<Rightarrow>
          if c = CHR ''-'' then max (- 2147483648) (- int (digits_val 0 cs))
          else if c = CHR ''+'' then min 2147483647 (int (digits_val 0 cs))
          else min 2147483647 (int (digits_val 0 (c # cs))))"

text \<open>\<open>%d\<close> for the relay ids the handlers print (the handlers only print ids 1 to 6).\<close>

definition show_digit :: "int \<Rightarrow> string" where
  "show_digit i = [char_of (48 + i)]"

section \<open>Error codes and HTTP responses\<close>

type_synonym esp_err_t = int

definition ESP_OK :: esp_err_t where
  "ESP_OK = 0"

definition ESP_FAIL :: esp_err_t where
  "ESP_FAIL = - 1"

definition ESP_ERR_NO_MEM :: esp_err_t where
  "ESP_ERR_NO_MEM = 0x101"

definition ESP_ERR_INVALID_ARG :: esp_err_t where
  "ESP_ERR_INVALID_ARG = 0x102"

definition ESP_ERR_NOT_FOUND :: esp_err_t where
  "ESP_ERR_NOT_FOUND = 0x105"

definition ESP_ERR_OTA_VALIDATE_FAILED :: esp_err_t where
  "ESP_ERR_OTA_VALIDATE_FAILED = 0x1503"

text \<open>What one call of \<open>httpd_req_recv\<close> returns.\<close>

datatype recv_result =
    Data string
  | Closed
  | Timeout
  | SockErr

section \<open>The relay endpoints\<close>

record relay_control_ui =
  button :: bool
  state :: bool

definition relay_control_ui_get_state :: "relay_control_ui \<Rightarrow> bool" where
  "relay_control_ui_get_state ui = state ui"

definition relay_control_ui_set_state :: "relay_control_ui \<Rightarrow> bool \<Rightarrow> relay_control_ui" where
  "relay_control_ui_set_state ui s = (if \<not> button ui then ui else ui\<lparr>state := s\<rparr>)"

text \<open>
  The outcome of a relay handler: status line and body sent, the handler's return value,
  the ids passed to \<open>example_lvgl_get_relay_ui\<close> (in call order), the state handed to
  \<open>relay_control_ui_set_state\<close> if it was called, and the relay table afterwards.
  \<open>example_lvgl_get_relay_ui\<close> is declared \<open>extern\<close>; the handlers take it as the
  table \<open>get_ui\<close>, \<open>None\<close> for a NULL pointer.
\<close>

record relay_outcome =
  r_status :: string
  r_body :: string
  r_ret :: esp_err_t
  r_lookups :: "int list"
  r_set :: "bool option"
  r_table :: "int \<Rightarrow> relay_control_ui option"

definition bool_str :: "bool \<Rightarrow> string" where
  "bool_str b = (if b then ''true'' else ''false'')"

definition json_error :: "string \<Rightarrow> string" where
  "json_error msg =
     ''{'' @ [DQ] @ ''success'' @ [DQ] @ '':false,'' @ [DQ] @ ''error'' @ [DQ] @ '':''
       @ [DQ] @ msg @ [DQ] @ ''}''"

definition json_state :: "int \<Rightarrow> bool \<Rightarrow> string" where
  "json_state relay_id s =
     ''{'' @ [DQ] @ ''success'' @ [DQ] @ '':true,'' @ [DQ] @ ''id'' @ [DQ] @ '':''
       @ show_digit relay_id @ '','' @ [DQ] @ ''state'' @ [DQ] @ '':'' @ bool_str s @ ''}''"

definition relay_get_id :: "string \<Rightarrow> int option" where
  "relay_get_id uri =
     (case strrchr uri (CHR ''/'') of
        None \<Rightarrow> None
      | Some k \<Rightarrow> Some (atoi (drop (Suc k) uri)))"

definition relay_get_handler ::
  "(int \<Rightarrow> relay_control_ui option) \<Rightarrow> string \<Rightarrow> relay_outcome" where
  "relay_get_handler get_ui uri =
     (case relay_get_id uri of
        None \<Rightarrow>
          \<lparr>r_status = ''400 Bad Request'', r_body = json_error ''Invalid URI'',
           r_ret = ESP_FAIL, r_lookups = [], r_set = None, r_table = get_ui\<rparr>
      | Some relay_id \<Rightarrow>
          if relay_id < 1 \<or> relay_id > 6 then
            \<lparr>r_status = ''400 Bad Request'', r_body = json_error ''Invalid relay ID'',
             r_ret = ESP_FAIL, r_lookups = [], r_set = None, r_table = get_ui\<rparr>
          else
            (case get_ui relay_id of
               None \<Rightarrow>
                 \<lparr>r_status = ''503 Service Unavailable'',
                  r_body = json_error ''Relay not initialized'',
                  r_ret = ESP_OK, r_lookups = [relay_id], r_set = None, r_table = get_ui\<rparr>
             | Some relay_ui \<Rightarrow>
                 \<lparr>r_status = ''200 OK'',
                  r_body = json_state relay_id (relay_control_ui_get_state relay_ui),
                  r_ret = ESP_OK, r_lookups = [relay_id], r_set = None, r_table = get_ui\<rparr>))"

text \<open>
  POST copies at most seven bytes of the id segment into \<open>relay_id_str\<close> before \<open>atoi\<close>;
  a URI without a slash leaves the buffer empty.
\<close>

definition relay_post_id :: "string \<Rightarrow> int" where
  "relay_post_id uri =
     (case strrchr uri (CHR ''/'') of
        None \<Rightarrow> atoi []
      | Some k \<Rightarrow> atoi (take 7 (cstr (drop (Suc k) uri))))"

definition tok_true_dq :: string where
  "tok_true_dq = [DQ] @ ''state'' @ [DQ] @ '':true''"

definition tok_true_sq :: string where
  "tok_true_sq = [SQ] @ ''state'' @ [SQ] @ '':true''"

definition tok_false_dq :: string where
  "tok_false_dq = [DQ] @ ''state'' @ [DQ] @ '':false''"

definition tok_false_sq :: string where
  "tok_false_sq = [SQ] @ ''state'' @ [SQ] @ '':false''"

text \<open>
  The body parse of POST: \<open>content\<close> is the zero-initialised 128-byte buffer after the
  receive, of which \<open>strstr\<close> sees the part before the first NUL.
\<close>

definition parse_new_state :: "string \<Rightarrow> bool \<Rightarrow> bool" where
  "parse_new_state content cur =
     (if strstr content tok_true_dq \<noteq> None \<or> strstr content tok_true_sq \<noteq> None then True
      else if strstr content tok_false_dq \<noteq> None \<or> strstr content tok_false_sq \<noteq> None
      then False
      else \<not> cur)"

definition relay_post_handler ::
  "(int \<Rightarrow> relay_control_ui option) \<Rightarrow> string \<Rightarrow> recv_result \<Rightarrow> relay_outcome" where
  "relay_post_handler get_ui uri rcv =
     (let relay_id = relay_post_id uri
      in if relay_id < 1 \<or> relay_id > 6 then
           \<lparr>r_status = ''400 Bad Request'', r_body = json_error ''Invalid relay ID'',
            r_ret = ESP_FAIL, r_lookups = [], r_set = None, r_table = get_ui\<rparr>
         else
           (case get_ui relay_id of
              None \<Rightarrow>
                \<lparr>r_status = ''503 Service Unavailable'',
                 r_body = json_error ''Relay not initialized'',
                 r_ret = ESP_OK, r_lookups = [relay_id], r_set = None, r_table = get_ui\<rparr>
            | Some relay_ui \<Rightarrow>
                (let content = (case rcv of Data d \<Rightarrow> take 127 d | _ \<Rightarrow> [])
                 in if content = [] then
                      \<lparr>r_status = ''400 Bad Request'', r_body = json_error ''No data received'',
                       r_ret = ESP_FAIL, r_lookups = [relay_id], r_set = None,
                       r_table = get_ui\<rparr>
                    else
                      (let new_state =
                             parse_new_state content (relay_control_ui_get_state relay_ui)
                       in \<lparr>r_status = ''200 OK'', r_body = json_state relay_id new_state,
                           r_ret = ESP_OK, r_lookups = [relay_id], r_set = Some new_state,
                           r_table =
                             get_ui(relay_id \<mapsto> relay_control_ui_set_state relay_ui new_state)\<rparr>))))"

text \<open>A relay table holding initialised relays 1 to \<open>n\<close>, all off.\<close>

definition relays_upto :: "int \<Rightarrow> int \<Rightarrow> relay_control_ui option" where
  "relays_upto n i = (if 1 \<le> i \<and> i \<le> n then Some \<lparr>button = True, state = False\<rparr> else None)"

section \<open>The firmware upload handler\<close>

subsection \<open>Request, platform and outcome\<close>

type_synonym size_t = "32 word"

text \<open>
  What \<open>httpd_req_get_hdr_value_str\<close> leaves behind: the value with \<open>ESP_OK\<close>, a
  truncated copy with an error code when the value does not fit the buffer, or nothing.
\<close>

datatype hdr_result =
    HdrOk string
  | HdrTrunc string
  | HdrAbsent

definition hdr_buf :: "hdr_result \<Rightarrow> string" where
  "hdr_buf h = (case h of HdrOk s \<Rightarrow> cstr s | HdrTrunc s \<Rightarrow> cstr s | HdrAbsent \<Rightarrow> [])"

record update_req =
  content_len :: size_t
  hdr_content_length :: hdr_result
  hdr_content_type :: hdr_result

text \<open>
  The platform calls the handler makes, as parameters: whether an update partition exists,
  the results of \<open>esp_ota_begin\<close> and \<open>malloc\<close>, the bytes found in memory from
  \<open>buf\<close> on when \<open>malloc\<close> returns (nothing clears them), \<open>esp_ota_write\<close> (given the bytes written so far and the new
  bytes), \<open>esp_partition_read\<close> of the first byte and \<open>esp_ota_end\<close> (given the bytes
  written), whether a partition to boot from is found, and \<open>esp_ota_set_boot_partition\<close>.
\<close>

record platform =
  next_update_partition :: bool
  ota_begin :: esp_err_t
  malloc_ok :: bool
  heap :: string
  ota_write :: "string \<Rightarrow> string \<Rightarrow> esp_err_t"
  partition_read :: "string \<Rightarrow> esp_err_t \<times> char"
  ota_end :: "string \<Rightarrow> esp_err_t"
  boot_partition_found :: bool
  set_boot_partition :: esp_err_t

datatype effect =
    OtaBegin esp_err_t
  | OtaWrite string esp_err_t
  | OtaAbort
  | PartitionRead
  | OtaEnd esp_err_t
  | SetBoot esp_err_t
  | Respond string string
  | Delay nat
  | Restart

text \<open>
  How a run ends: the handler returns a code, the device restarts, the handler is still
  blocked in \<open>httpd_req_recv\<close> when the given receive results are used up, or the handler
  reads memory outside what is modelled (undefined behaviour in C).
\<close>

datatype finish =
    Returned esp_err_t
  | Restarted
  | Blocked
  | Fault

record outcome =
  fin :: finish
  trace :: "effect list"
  flash :: string
  received :: size_t

text \<open>The handler's variables while it receives.\<close>

record ustate =
  u_mem :: string
  u_flash :: string
  u_received :: size_t
  u_trace :: "effect list"

definition buf_size :: nat where
  "buf_size = 4096"

definition stop :: "finish \<Rightarrow> effect list \<Rightarrow> ustate \<Rightarrow> outcome" where
  "stop f es st =
     \<lparr>fin = f, trace = u_trace st @ es, flash = u_flash st, received = u_received st\<rparr>"

text \<open>
  The receive buffer is the first \<open>buf_size\<close> bytes of the memory \<open>u_mem\<close>; a receive
  overwrites a prefix of it and leaves the rest as it was. A heap shorter than the buffer
  is filled up with NUL bytes. A string scan that runs to the end of the modelled memory
  stops there, as at a NUL byte; a write that would read past it is \<open>Fault\<close>.
\<close>

definition init_mem :: "platform \<Rightarrow> string" where
  "init_mem env = heap env @ replicate (buf_size - length (heap env)) NUL"

definition recv_into :: "string \<Rightarrow> string \<Rightarrow> string" where
  "recv_into m d = take buf_size d @ drop (length (take buf_size d)) m"

definition byte_at :: "string \<Rightarrow> nat \<Rightarrow> char" where
  "byte_at m i = (if i < length m then m ! i else NUL)"

text \<open>
  \<open>esp_ota_write(handle, buf + off, n)\<close> with the error path every call site has, and
  \<open>received += n\<close> on success.
\<close>

definition do_write :: "platform \<Rightarrow> ustate \<Rightarrow> nat \<Rightarrow> nat \<Rightarrow> outcome + ustate" where
  "do_write env st off n =
     (if length (u_mem st) < off + n then Inl (stop Fault [] st)
      else
        (let d = take n (drop off (u_mem st));
             err = ota_write env (u_flash st) d
         in if err \<noteq> ESP_OK then
              Inl (stop (Returned err)
                     [OtaWrite d err, OtaAbort,
                      Respond ''500 Internal Server Error'' ''OTA write failed''] st)
            else
              Inr (st\<lparr>u_flash := u_flash st @ d,
                      u_received := u_received st + of_nat n,
                      u_trace := u_trace st @ [OtaWrite d ESP_OK]\<rparr>)))"

definition write_if_pos :: "platform \<Rightarrow> ustate \<Rightarrow> nat \<Rightarrow> nat \<Rightarrow> outcome + ustate" where
  "write_if_pos env st off n = (if 0 < n then do_write env st off n else Inr st)"

subsection \<open>Content length and boundary extraction\<close>

definition effective_content_len :: "update_req \<Rightarrow> size_t" where
  "effective_content_len req =
     (case hdr_content_length req of
        HdrOk s \<Rightarrow>
          (let header_content_len = (word_of_int (atoi s) :: size_t)
           in if 0 < header_content_len \<and> content_len req = 0 then header_content_len
              else content_len req)
      | _ \<Rightarrow> content_len req)"

definition is_blank :: "char \<Rightarrow> bool" where
  "is_blank c = (c = CHR 0x20 \<or> c = CHR 0x09)"

fun trim_end :: "string \<Rightarrow> nat \<Rightarrow> nat" where
  "trim_end s 0 = 0"
| "trim_end s (Suc e) =
     (if is_blank (byte_at s e) \<or> byte_at s e = CR \<or> byte_at s e = LF then trim_end s e
      else Suc e)"

definition header_boundary :: "string \<Rightarrow> string" where
  "header_boundary ct =
     (if ct = [] then []
      else
        (case strstr ct ''boundary='' of
           None \<Rightarrow> []
         | Some k \<Rightarrow>
             (let s1 = dropWhile is_blank (drop (k + 9) ct);
                  s2 = (if byte_at s1 0 = DQ then drop 1 s1 else s1);
                  e0 = (case strchr s2 (CHR '';'') of None \<Rightarrow> length s2 | Some j \<Rightarrow> j);
                  e1 = (if 0 < e0 \<and> byte_at s2 (e0 - 1) = DQ then e0 - 1 else e0);
                  e2 = trim_end s2 e1
              in take (min e2 127) s2)))"

definition data_boundary :: "string \<Rightarrow> string" where
  "data_boundary m =
     (case strstr (drop 2 m) CRLF of
        Some j \<Rightarrow> take (min j 127) (drop 2 m)
      | None \<Rightarrow>
          (case strstr m CRLF of
             Some h \<Rightarrow> if 2 < h then take (min (h - 2) 127) (drop 2 m) else []
           | None \<Rightarrow> []))"

definition starts_dashes :: "string \<Rightarrow> nat \<Rightarrow> bool" where
  "starts_dashes m initial_recv =
     (2 \<le> initial_recv \<and> byte_at m 0 = CHR ''-'' \<and> byte_at m 1 = CHR ''-'')"

definition extract_boundary :: "string \<Rightarrow> string \<Rightarrow> nat \<Rightarrow> string" where
  "extract_boundary ct m initial_recv =
     (let b = header_boundary ct
      in if b = [] \<and> starts_dashes m initial_recv then data_boundary m else b)"

subsection \<open>Locating the start of the binary in the first chunk\<close>

definition find_binary_start :: "string \<Rightarrow> string \<Rightarrow> nat \<Rightarrow> nat option" where
  "find_binary_start B m initial_recv =
     (if B \<noteq> [] then
        (let marker = ''--'' @ B; ml = length marker
         in if ml \<le> initial_recv \<and> prefix marker m then
              (let ab = (if ml + 2 \<le> initial_recv \<and> prefix CRLF (drop ml m)
                         then ml + 2 else ml)
               in map_option (\<lambda>j. ab + j + 4) (strstr (drop ab m) (CRLF @ CRLF)))
            else map_option (\<lambda>j. j + 4) (strstr m (CRLF @ CRLF)))
      else map_option (\<lambda>j. j + 4) (strstr m (CRLF @ CRLF)))"

definition bad_multipart :: "ustate \<Rightarrow> outcome" where
  "bad_multipart st =
     stop (Returned ESP_ERR_INVALID_ARG)
       [OtaAbort, Respond ''400 Bad Request'' ''Invalid multipart data format''] st"

text \<open>
  The first chunk of a multipart body: find the binary, step over a second separator when
  the first byte found is a dash, refuse a binary that starts with the boundary, write the
  rest of the chunk. \<open>data_size\<close> is a \<open>size_t\<close> difference.
\<close>

definition first_chunk :: "platform \<Rightarrow> string \<Rightarrow> ustate \<Rightarrow> nat \<Rightarrow> outcome + ustate" where
  "first_chunk env B st initial_recv =
     (let m = u_mem st
      in case find_binary_start B m initial_recv of
           None \<Rightarrow> Inl (bad_multipart st)
         | Some bs0 \<Rightarrow>
             if (of_nat initial_recv - of_nat bs0 :: size_t) = 0 then Inl (bad_multipart st)
             else
               (case (if byte_at m bs0 = CHR 0x2D
                      then map_option (\<lambda>j. bs0 + 1 + j + 4)
                             (strstr (drop (bs0 + 1) m) (CRLF @ CRLF))
                      else Some bs0) of
                  None \<Rightarrow> Inl (bad_multipart st)
                | Some bs \<Rightarrow>
                    (let data_size = (of_nat initial_recv - of_nat bs :: size_t)
                     in if B \<noteq> [] \<and> length (''--'' @ B) \<le> unat data_size
                           \<and> prefix (''--'' @ B) (drop bs m)
                        then Inl (stop (Returned ESP_FAIL)
                                    [OtaAbort,
                                     Respond ''500 Internal Server Error''
                                       ''Invalid multipart data''] st)
                        else write_if_pos env st bs (unat data_size))))"

subsection \<open>The multipart receive loop\<close>

text \<open>
  The search for an end boundary in one received chunk: \<open>Some (data_to_write,
  is_final_boundary)\<close> when \<open>end_boundary\<close> is set. \<open>strstr\<close> runs on the buffer, which
  nothing terminates at \<open>recv_len\<close>.
\<close>

definition scan_chunk :: "string \<Rightarrow> string \<Rightarrow> nat \<Rightarrow> (nat \<times> bool) option" where
  "scan_chunk B m recv_len =
     (if B \<noteq> [] then
        (case strstr m (CRLF @ ''--'' @ B @ ''--'') of
           Some k \<Rightarrow> Some (k, True)
         | None \<Rightarrow>
             if length (''--'' @ B @ ''--'') \<le> recv_len \<and> prefix (''--'' @ B @ ''--'') m
             then Some (0, True)
             else
               (case strstr m (CRLF @ ''--'' @ B @ CRLF) of
                  Some k \<Rightarrow> Some (k, False)
                | None \<Rightarrow> None))
      else
        (case strstr m (CRLF @ ''--'') of
           Some k \<Rightarrow>
             Some (k, k + 2 < recv_len \<and> byte_at m (k + 2) = CHR ''-''
                        \<and> byte_at m (k + 3) = CHR ''-'')
         | None \<Rightarrow>
             if 2 \<le> recv_len \<and> prefix ''--'' m \<and> 4 \<le> recv_len
                \<and> byte_at m (recv_len - 2) = CHR ''-'' \<and> byte_at m (recv_len - 1) = CHR ''-''
             then Some (0, True)
             else None))"

text \<open>
  The loop over the last 200 bytes of a chunk in which \<open>scan_chunk\<close> found nothing:
  \<open>Some write_len\<close> when it sets \<open>found_final_boundary\<close>. \<open>i\<close> is the loop variable,
  the last argument counts the iterations left.
\<close>

definition cut_before :: "string \<Rightarrow> nat \<Rightarrow> nat" where
  "cut_before m i =
     (if 2 \<le> i \<and> byte_at m (i - 2) = CR \<and> byte_at m (i - 1) = LF then i - 2 else i)"

fun tail_scan :: "string \<Rightarrow> string \<Rightarrow> nat \<Rightarrow> nat \<Rightarrow> nat \<Rightarrow> nat option" where
  "tail_scan B m recv_len i 0 = None"
| "tail_scan B m recv_len i (Suc n) =
     (if byte_at m i = CHR ''-'' \<and> byte_at m (i + 1) = CHR ''-'' then
        (if i + length (''--'' @ B @ ''--'') \<le> recv_len
            \<and> prefix (''--'' @ B @ ''--'') (drop i m)
         then Some (cut_before m i)
         else if i + length (''--'' @ B) \<le> recv_len \<and> prefix (''--'' @ B) (drop i m)
         then Some (cut_before m i)
         else tail_scan B m recv_len (Suc i) n)
      else tail_scan B m recv_len (Suc i) n)"

definition chunk_tail :: "string \<Rightarrow> string \<Rightarrow> nat \<Rightarrow> nat option" where
  "chunk_tail B m recv_len =
     (if B \<noteq> [] \<and> 4 < recv_len
      then tail_scan B m recv_len (recv_len - 200) ((recv_len - 1) - (recv_len - 200))
      else None)"

text \<open>
  One pass of a receive loop either ends the handler, leaves the loop for the
  finalisation, or goes round again.
\<close>

datatype pass =
    Stop outcome
  | Leave ustate
  | Again ustate

definition recv_failed :: "ustate \<Rightarrow> outcome" where
  "recv_failed st =
     stop (Returned ESP_FAIL)
       [OtaAbort, Respond ''500 Internal Server Error'' ''Receive failed''] st"

text \<open>
  \<open>recv_len == 0\<close> in the multipart loop: three branches that differ in what they log,
  each of them a \<open>break\<close>.
\<close>

definition mp_closed :: "string \<Rightarrow> size_t \<Rightarrow> ustate \<Rightarrow> pass" where
  "mp_closed B content_length st =
     (let boundary_overhead = (if B \<noteq> [] then of_nat (length B) + 6 else 200 :: size_t)
      in if 0 < content_length
            \<and> content_length - boundary_overhead - 100 \<le> u_received st
         then Leave st
         else if content_length = 0 then Leave st
         else Leave st)"

definition mp_data :: "platform \<Rightarrow> string \<Rightarrow> ustate \<Rightarrow> string \<Rightarrow> pass" where
  "mp_data env B st d =
     (let m = recv_into (u_mem st) d;
          recv_len = length (take buf_size d);
          st1 = st\<lparr>u_mem := m\<rparr>
      in case scan_chunk B m recv_len of
           Some (data_to_write, True) \<Rightarrow>
             (case write_if_pos env st1 0 data_to_write of
                Inl out \<Rightarrow> Stop out
              | Inr st2 \<Rightarrow> Leave st2)
         | Some (data_to_write, False) \<Rightarrow>
             (case write_if_pos env st1 0 data_to_write of
                Inl out \<Rightarrow> Stop out
              | Inr st2 \<Rightarrow> Again st2)
         | None \<Rightarrow>
             (case chunk_tail B m recv_len of
                Some write_len \<Rightarrow>
                  (case write_if_pos env st1 0 write_len of
                     Inl out \<Rightarrow> Stop out
                   | Inr st2 \<Rightarrow> Leave st2)
              | None \<Rightarrow>
                  (case write_if_pos env st1 0 recv_len of
                     Inl out \<Rightarrow> Stop out
                   | Inr st2 \<Rightarrow> Again st2)))"

definition mp_pass :: "platform \<Rightarrow> string \<Rightarrow> size_t \<Rightarrow> ustate \<Rightarrow> recv_result \<Rightarrow> pass" where
  "mp_pass env B content_length st ev =
     (case ev of
        Timeout \<Rightarrow> Again st
      | SockErr \<Rightarrow> Stop (recv_failed st)
      | Closed \<Rightarrow> mp_closed B content_length st
      | Data d \<Rightarrow>
          if take buf_size d = [] then mp_closed B content_length st
          else mp_data env B st d)"

definition keep_reading :: "size_t \<Rightarrow> ustate \<Rightarrow> bool" where
  "keep_reading content_length st = (content_length = 0 \<or> u_received st < content_length)"

fun mp_loop ::
  "platform \<Rightarrow> string \<Rightarrow> size_t \<Rightarrow> ustate \<Rightarrow> recv_result list \<Rightarrow> outcome + ustate" where
  "mp_loop env B cl st [] = (if keep_reading cl st then Inl (stop Blocked [] st) else Inr st)"
| "mp_loop env B cl st (ev # evs) =
     (if keep_reading cl st then
        (case mp_pass env B cl st ev of
           Stop out \<Rightarrow> Inl out
         | Leave st' \<Rightarrow> Inr st'
         | Again st' \<Rightarrow> mp_loop env B cl st' evs)
      else Inr st)"

subsection \<open>The raw receive loop\<close>

definition raw_pass :: "platform \<Rightarrow> ustate \<Rightarrow> recv_result \<Rightarrow> pass" where
  "raw_pass env st ev =
     (case ev of
        Timeout \<Rightarrow> Again st
      | SockErr \<Rightarrow> Stop (recv_failed st)
      | Closed \<Rightarrow> Leave st
      | Data d \<Rightarrow>
          if take buf_size d = [] then Leave st
          else
            (case do_write env (st\<lparr>u_mem := recv_into (u_mem st) d\<rparr>) 0
                    (length (take buf_size d)) of
               Inl out \<Rightarrow> Stop out
             | Inr st2 \<Rightarrow> Again st2))"

fun raw_loop ::
  "platform \<Rightarrow> size_t \<Rightarrow> ustate \<Rightarrow> recv_result list \<Rightarrow> outcome + ustate" where
  "raw_loop env cl st [] = (if keep_reading cl st then Inl (stop Blocked [] st) else Inr st)"
| "raw_loop env cl st (ev # evs) =
     (if keep_reading cl st then
        (case raw_pass env st ev of
           Stop out \<Rightarrow> Inl out
         | Leave st' \<Rightarrow> Inr st'
         | Again st' \<Rightarrow> raw_loop env cl st' evs)
      else Inr st)"

subsection \<open>Validation, boot switch and the handler\<close>

definition finalize :: "platform \<Rightarrow> ustate \<Rightarrow> outcome" where
  "finalize env st =
     (let read_err = fst (partition_read env (u_flash st));
          magic_byte = snd (partition_read env (u_flash st))
      in if \<not> (read_err = ESP_OK \<and> magic_byte = CHR 0xE9) then
           stop (Returned ESP_ERR_INVALID_ARG)
             [PartitionRead, OtaAbort,
              Respond ''400 Bad Request'' ''Image validation failed - invalid magic byte''] st
         else
           (let err = ota_end env (u_flash st)
            in if err \<noteq> ESP_OK then
                 (if err = ESP_ERR_OTA_VALIDATE_FAILED then
                    stop (Returned err)
                      [PartitionRead, OtaEnd err,
                       Respond ''400 Bad Request'' ''Image validation failed''] st
                  else
                    stop (Returned err)
                      [PartitionRead, OtaEnd err,
                       Respond ''500 Internal Server Error'' ''OTA end failed''] st)
               else if \<not> boot_partition_found env then
                 stop (Returned ESP_ERR_NOT_FOUND)
                   [PartitionRead, OtaEnd err,
                    Respond ''200 OK'' ''Firmware update successful! Device will reboot...'',
                    Delay 2000,
                    Respond ''500 Internal Server Error'' ''Could not find boot partition''] st
               else
                 (let berr = set_boot_partition env
                  in if berr \<noteq> ESP_OK then
                       stop (Returned berr)
                         [PartitionRead, OtaEnd err,
                          Respond ''200 OK''
                            ''Firmware update successful! Device will reboot...'',
                          Delay 2000, SetBoot berr] st
                     else
                       stop Restarted
                         [PartitionRead, OtaEnd err,
                          Respond ''200 OK''
                            ''Firmware update successful! Device will reboot...'',
                          Delay 2000, SetBoot berr, Delay 1000, Restart] st)))"

definition header_multipart :: "update_req \<Rightarrow> bool" where
  "header_multipart req =
     (case hdr_content_type req of
        HdrOk s \<Rightarrow> strstr s ''multipart/form-data'' \<noteq> None
      | _ \<Rightarrow> False)"

text \<open>
  The body of the handler after the initial receive has put \<open>initial_recv\<close> bytes into
  the buffer: the choice between multipart and raw, the receive loop, the finalisation.
  In the raw case the bytes of the initial receive are not written: the loop receives
  into the same buffer again.
\<close>

definition receive_body ::
  "update_req \<Rightarrow> platform \<Rightarrow> ustate \<Rightarrow> nat \<Rightarrow> recv_result list \<Rightarrow> outcome" where
  "receive_body req env st initial_recv rest =
     (if header_multipart req \<or> starts_dashes (u_mem st) initial_recv then
        (case first_chunk env
                (extract_boundary (hdr_buf (hdr_content_type req)) (u_mem st) initial_recv)
                st initial_recv of
           Inl out \<Rightarrow> out
         | Inr st1 \<Rightarrow>
             (case mp_loop env
                     (extract_boundary (hdr_buf (hdr_content_type req)) (u_mem st)
                        initial_recv)
                     (effective_content_len req) st1 rest of
                Inl out \<Rightarrow> out
              | Inr st2 \<Rightarrow> finalize env st2))
      else
        (case raw_loop env (effective_content_len req) st rest of
           Inl out \<Rightarrow> out
         | Inr st2 \<Rightarrow> finalize env st2))"

text \<open>The initial receive: any negative result is fatal, a timeout included.\<close>

fun receive_and_finalize ::
  "update_req \<Rightarrow> platform \<Rightarrow> ustate \<Rightarrow> recv_result list \<Rightarrow> outcome" where
  "receive_and_finalize req env st0 [] = stop Blocked [] st0"
| "receive_and_finalize req env st0 (Timeout # rest) = recv_failed st0"
| "receive_and_finalize req env st0 (SockErr # rest) = recv_failed st0"
| "receive_and_finalize req env st0 (Closed # rest) = receive_body req env st0 0 rest"
| "receive_and_finalize req env st0 (Data d # rest) =
     receive_body req env (st0\<lparr>u_mem := recv_into (u_mem st0) d\<rparr>)
       (length (take buf_size d)) rest"

definition no_effects :: outcome where
  "no_effects = \<lparr>fin = Blocked, trace = [], flash = [], received = 0\<rparr>"

definition update_post_handler ::
  "update_req \<Rightarrow> platform \<Rightarrow> recv_result list \<Rightarrow> outcome" where
  "update_post_handler req env evs =
     (if \<not> next_update_partition env then
        no_effects\<lparr>fin := Returned ESP_FAIL,
                   trace := [Respond ''500 Internal Server Error'' ''No OTA partition found'']\<rparr>
      else if ota_begin env \<noteq> ESP_OK then
        no_effects\<lparr>fin := Returned (ota_begin env),
                   trace := [OtaBegin (ota_begin env),
                             Respond ''500 Internal Server Error'' ''OTA begin failed'']\<rparr>
      else if \<not> malloc_ok env then
        no_effects\<lparr>fin := Returned ESP_ERR_NO_MEM,
                   trace := [OtaBegin ESP_OK, OtaAbort,
                             Respond ''500 Internal Server Error''
                               ''Memory allocation failed'']\<rparr>
      else
        receive_and_finalize req env
          \<lparr>u_mem = init_mem env, u_flash = [], u_received = 0, u_trace = [OtaBegin ESP_OK]\<rparr>
          evs)"

text \<open>What the client sees: the first response the handler sends.\<close>

fun client_status :: "effect list \<Rightarrow> string option" where
  "client_status [] = None"
| "client_status (Respond s b # es) = Some s"
| "client_status (e # es) = client_status es"

text \<open>
  A platform for examples: a region of \<open>cap\<close> bytes that accepts a write while it fits,
  reads back its first written byte (erased flash reads \<open>0xFF\<close>), passes the final
  check, and whose boot switch returns \<open>boot_err\<close>. The buffer starts zeroed.
\<close>

definition flash_platform :: "nat \<Rightarrow> esp_err_t \<Rightarrow> platform" where
  "flash_platform cap boot_err =
     \<lparr>next_update_partition = True, ota_begin = ESP_OK, malloc_ok = True, heap = [],
      ota_write = (\<lambda>w d. if length w + length d \<le> cap then ESP_OK else ESP_ERR_INVALID_ARG),
      partition_read = (\<lambda>w. (ESP_OK, case w of [] \<Rightarrow> CHR 0xFF | b # _ \<Rightarrow> b)),
      ota_end = (\<lambda>w. ESP_OK),
      boot_partition_found = True,
      set_boot_partition = boot_err\<rparr>"

subsection \<open>Reading a trace\<close>

text \<open>
  Effects that occur while the handler is still receiving: the successful
  \<open>esp_ota_begin\<close> and accepted writes.
\<close>

fun quiet :: "effect \<Rightarrow> bool" where
  "quiet (OtaBegin e) = (e = ESP_OK)"
| "quiet (OtaWrite d e) = (e = ESP_OK)"
| "quiet _ = False"

fun rejected :: "effect \<Rightarrow> bool" where
  "rejected (OtaWrite d e) = (e \<noteq> ESP_OK)"
| "rejected _ = False"

fun is_set_boot :: "effect \<Rightarrow> bool" where
  "is_set_boot (SetBoot e) = True"
| "is_set_boot _ = False"

text \<open>The bytes of the accepted writes of a trace, in order.\<close>

fun accepted_bytes :: "effect list \<Rightarrow> string" where
  "accepted_bytes [] = []"
| "accepted_bytes (OtaWrite d e # es) =
     (if e = ESP_OK then d @ accepted_bytes es else accepted_bytes es)"
| "accepted_bytes (e # es) = accepted_bytes es"

definition failed :: "finish \<Rightarrow> bool" where
  "failed f = (case f of Returned e \<Rightarrow> e \<noteq> ESP_OK | _ \<Rightarrow> False)"

text \<open>The invariant of the handler's variables while it receives.\<close>

definition receiving :: "ustate \<Rightarrow> bool" where
  "receiving st =
     (list_all quiet (u_trace st) \<and> u_flash st = accepted_bytes (u_trace st)
      \<and> u_received st = of_nat (length (u_flash st)))"

text \<open>An outcome of a run that ended before the validation started.\<close>

definition early :: "outcome \<Rightarrow> bool" where
  "early out =
     (flash out = accepted_bytes (trace out)
      \<and> received out = of_nat (length (flash out))
      \<and> \<not> list_ex is_set_boot (trace out)
      \<and> PartitionRead \<notin> set (trace out)
      \<and> (list_ex rejected (trace out) \<longrightarrow>
            OtaAbort \<in> set (trace out) \<and> failed (fin out)
            \<and> client_status (trace out) = Some ''500 Internal Server Error''))"

text \<open>What a pass of a receive loop preserves (used in the proofs below).\<close>

definition pass_ok :: "ustate \<Rightarrow> pass \<Rightarrow> bool" where
  "pass_ok st p =
     (case p of
        Stop out \<Rightarrow> early out \<and> flash out = u_flash st
      | Leave st' \<Rightarrow> receiving st' \<and> prefix (u_flash st) (u_flash st')
      | Again st' \<Rightarrow> receiving st' \<and> prefix (u_flash st) (u_flash st'))"


text \<open>The responses a trace sends, in order.\<close>

fun responses :: "effect list \<Rightarrow> (string \<times> string) list" where
  "responses [] = []"
| "responses (Respond s b # es) = (s, b) # responses es"
| "responses (e # es) = responses es"

subsection \<open>Example uploads\<close>

text \<open>
  Test input: a multipart/form-data body (the spec's \<open>wrap_multipart\<close>) holding the
  firmware image \<open>F\<close> as its one part, with boundary \<open>B\<close>: the part boundary, one
  part header, the blank line, the image, the final boundary.
\<close>

definition part_head :: "string \<Rightarrow> string" where
  "part_head B =
     ''--'' @ B @ CRLF @ ''Content-Type: application/octet-stream'' @ CRLF @ CRLF"

definition final_marker :: "string \<Rightarrow> string" where
  "final_marker B = CRLF @ ''--'' @ B @ ''--'' @ CRLF"

definition wrap_multipart :: "string \<Rightarrow> string \<Rightarrow> string" where
  "wrap_multipart F B = part_head B @ F @ final_marker B"

definition firmware3 :: string where
  "firmware3 = [CHR 0xE9, CHR 0x01, CHR 0x02]"

text \<open>A multipart upload with boundary \<open>X\<close> and the given content length.\<close>

definition upload_req :: "size_t \<Rightarrow> update_req" where
  "upload_req n =
     \<lparr>content_len = n, hdr_content_length = HdrAbsent,
      hdr_content_type = HdrOk ''multipart/form-data; boundary=X''\<rparr>"

text \<open>
  The update handle is given up by \<open>esp_ota_abort\<close>, and by \<open>esp_ota_end\<close> whatever
  it returns: after either the region takes no more writes.
\<close>

fun is_ota_end :: "effect \<Rightarrow> bool" where
  "is_ota_end (OtaEnd e) = True"
| "is_ota_end _ = False"

definition region_released :: "effect list \<Rightarrow> bool" where
  "region_released tr = (OtaAbort \<in> set tr \<or> list_ex is_ota_end tr)"

text \<open>
  Chunk sequences for the image \<open>firmware3\<close> with boundary \<open>X\<close>: the marker whole in
  the second chunk; the same with a wrong first byte; the whole body in one chunk; the
  final marker split between two chunks; one byte per chunk; a second chunk that ends
  with the first bytes of the marker; and, for an image of 100 bytes, the connection
  closed right after the image.
\<close>

definition chunks_marker_whole :: "recv_result list" where
  "chunks_marker_whole =
     [Data (part_head ''X'' @ take 2 firmware3),
      Data (drop 2 firmware3 @ CRLF @ ''--X--''), Closed]"

definition chunks_bad_magic :: "recv_result list" where
  "chunks_bad_magic =
     [Data (part_head ''X'' @ [CHR 0x00, CHR 0x01]), Data ([CHR 0x02] @ CRLF @ ''--X--''),
      Closed]"

definition chunks_single :: "recv_result list" where
  "chunks_single = [Data (wrap_multipart firmware3 ''X''), Closed]"

definition chunks_marker_split :: "recv_result list" where
  "chunks_marker_split =
     [Data (part_head ''X'' @ firmware3 @ CRLF @ ''-''), Data (''-X--'' @ CRLF), Closed]"

definition chunks_one_byte :: "recv_result list" where
  "chunks_one_byte = map (\<lambda>c. Data [c]) (wrap_multipart firmware3 ''X'') @ [Closed]"

definition chunks_marker_prefix :: "recv_result list" where
  "chunks_marker_prefix =
     [Data (part_head ''X'' @ take 2 firmware3), Data (drop 2 firmware3 @ CRLF @ ''--'')]"

definition firmware100 :: string where
  "firmware100 = CHR 0xE9 # replicate 99 (CHR 0x01)"

definition chunks_closed_early :: "recv_result list" where
  "chunks_closed_early = [Data (part_head ''X'' @ firmware100), Closed]"

text \<open>The bytes accepted so far, whether a receive loop ended the run or left normally.\<close>

definition res_flash :: "outcome + ustate \<Rightarrow> string" where
  "res_flash r = (case r of Inl out \<Rightarrow> flash out | Inr st \<Rightarrow> u_flash st)"



text \<open>
  A state of the multipart loop after the first chunk of \<open>chunks_closed_early\<close>: the
  100 bytes of the image accepted, the buffer still holding the chunk.
\<close>

definition closed_early_state :: ustate where
  "closed_early_state =
     \<lparr>u_mem = part_head ''X'' @ firmware100
               @ replicate (buf_size - length (part_head ''X'' @ firmware100)) NUL,
      u_flash = firmware100, u_received = 100,
      u_trace = [OtaBegin ESP_OK, OtaWrite firmware100 ESP_OK]\<rparr>"

text \<open>A region too small for \<open>firmware3\<close>: it holds two bytes.\<close>

definition small_region :: platform where
  "small_region = flash_platform 2 ESP_OK"

text \<open>The bytes a sequence of receive results delivers.\<close>

fun payload :: "recv_result \<Rightarrow> string" where
  "payload (Data d) = d"
| "payload _ = []"

definition body_of :: "recv_result list \<Rightarrow> string" where
  "body_of evs = concat (map payload evs)"

section \<open>Verified properties\<close>

subsection \<open>Substring search\<close>

lemma find_sub_sublist: "find_sub pat xs \<noteq> None \<Longrightarrow> sublist pat xs"
proof (induction xs)
  case Nil
  then show ?case by (simp split: if_splits)
next
  case (Cons c cs)
  show ?case
  proof (cases "prefix pat (c # cs)")
    case True
    then show ?thesis by (rule prefix_imp_sublist)
  next
    case False
    with Cons.prems have "find_sub pat cs \<noteq> None" by simp
    then have "sublist pat cs" by (rule Cons.IH)
    then show ?thesis by (simp add: sublist_Cons_right)
  qed
qed

lemma strstr_sublist: "strstr hay pat \<noteq> None \<Longrightarrow> sublist pat hay"
proof -
  assume "strstr hay pat \<noteq> None"
  then have "sublist pat (cstr hay)" unfolding strstr_def by (rule find_sub_sublist)
  moreover have "sublist (cstr hay) hay" unfolding cstr_def by (rule sublist_takeWhile)
  ultimately show ?thesis by (rule sublist_order.order.trans)
qed

subsection \<open>Relay endpoints\<close>

lemma parse_toggle:
  assumes "\<not> sublist tok_true_dq d" "\<not> sublist tok_true_sq d"
    "\<not> sublist tok_false_dq d" "\<not> sublist tok_false_sq d"
  shows "parse_new_state (take 127 d) cur = (\<not> cur)"
proof -
  have none: "strstr (take 127 d) pat = None" if "\<not> sublist pat d" for pat
  proof (rule ccontr)
    assume "strstr (take 127 d) pat \<noteq> None"
    then have "sublist pat (take 127 d)" by (rule strstr_sublist)
    then have "sublist pat d" using sublist_take sublist_order.order.trans by blast
    with that show False by simp
  qed
  show ?thesis using assms by (simp add: parse_new_state_def none)
qed

lemma post_id_3: "relay_post_id ''/api/relay/3'' = 3"
  by (simp add: relay_post_id_def strrchr_def cstr_def NUL_def atoi_def is_space_def
      is_digit_def)

text \<open>
  Claim C10. A POST to the relay endpoint with a valid id, an initialised relay and a
  non-empty body \<open>d\<close> in which none of the state tokens the handler recognises occurs
  (\<open>"state":true\<close>, \<open>"state":false\<close>, or either with single quotes) toggles the relay.
  The state handed to \<open>relay_control_ui_set_state\<close> is the negation of the relay's
  current state, the relay ends in that state, and the handler answers 200 with the
  success body carrying the new state and returns \<open>ESP_OK\<close>.
\<close>

theorem relay_post_toggles:
  assumes id_ok: "1 \<le> relay_post_id uri" "relay_post_id uri \<le> 6"
    and ui: "get_ui (relay_post_id uri) = Some ui"
    and body: "d \<noteq> []"
    and toks: "\<not> sublist tok_true_dq d" "\<not> sublist tok_true_sq d"
      "\<not> sublist tok_false_dq d" "\<not> sublist tok_false_sq d"
  shows "r_set (relay_post_handler get_ui uri (Data d)) = Some (\<not> state ui)
    \<and> r_status (relay_post_handler get_ui uri (Data d)) = ''200 OK''
    \<and> r_body (relay_post_handler get_ui uri (Data d))
        = json_state (relay_post_id uri) (\<not> state ui)
    \<and> r_ret (relay_post_handler get_ui uri (Data d)) = ESP_OK
    \<and> (button ui \<longrightarrow>
         r_table (relay_post_handler get_ui uri (Data d)) (relay_post_id uri)
           = Some (ui\<lparr>state := \<not> state ui\<rparr>))"
proof -
  have ne: "take 127 d \<noteq> []" using body by (cases d) simp_all
  have p: "parse_new_state (take 127 d) (state ui) = (\<not> state ui)"
    using toks by (rule parse_toggle)
  show ?thesis
    using id_ok ui ne p
    by (simp add: relay_post_handler_def Let_def relay_control_ui_get_state_def
        relay_control_ui_set_state_def)
qed

theorem relay_post_toggles_witness:
  "r_set (relay_post_handler (relays_upto 5) ''/api/relay/3'' (Data ''{}'')) = Some True
   \<and> r_status (relay_post_handler (relays_upto 5) ''/api/relay/3'' (Data ''{}'')) = ''200 OK''
   \<and> r_table (relay_post_handler (relays_upto 5) ''/api/relay/3'' (Data ''{}'')) 3
       = Some \<lparr>button = True, state = True\<rparr>"
proof -
  have a: "relays_upto 5 (relay_post_id ''/api/relay/3'')
             = Some \<lparr>button = True, state = False\<rparr>"
    by (simp add: post_id_3 relays_upto_def)
  have t: "\<not> sublist tok_true_dq ''{}''" "\<not> sublist tok_true_sq ''{}''"
      "\<not> sublist tok_false_dq ''{}''" "\<not> sublist tok_false_sq ''{}''"
    by (simp_all add: tok_true_dq_def tok_true_sq_def tok_false_dq_def tok_false_sq_def
        sublist_Cons_right DQ_def SQ_def)
  show ?thesis
    using relay_post_toggles [of "''/api/relay/3''" "relays_upto 5"
        "\<lparr>button = True, state = False\<rparr>" "''{}''", OF _ _ a _ t]
    by (simp add: post_id_3)
qed

lemma get_id_3: "relay_get_id ''/api/relay/3'' = Some 3"
  by (simp add: relay_get_id_def strrchr_def cstr_def NUL_def atoi_def is_space_def
      is_digit_def)

lemma get_id_6: "relay_get_id ''/api/relay/6'' = Some 6"
  by (simp add: relay_get_id_def strrchr_def cstr_def NUL_def atoi_def is_space_def
      is_digit_def)

lemma get_id_7: "relay_get_id ''/api/relay/7'' = Some 7"
  by (simp add: relay_get_id_def strrchr_def cstr_def NUL_def atoi_def is_space_def
      is_digit_def)

text \<open>
  Claim C9, as the code has it. The relay id of GET and POST \<open>/api/relay/<id>\<close> is
  checked against the fixed range 1 to 6, whatever number of relays the user interface
  created: an id from 1 to 6 passes the check and is looked up (exactly one lookup, with
  that id, and the answer is not the invalid-id error), and every other id is answered
  400 with the invalid-id error before any lookup.
\<close>

theorem relay_id_checked_against_six:
  "(relay_get_id uri = Some i \<longrightarrow>
      (if 1 \<le> i \<and> i \<le> 6
       then r_lookups (relay_get_handler get_ui uri) = [i]
          \<and> r_status (relay_get_handler get_ui uri) \<noteq> ''400 Bad Request''
       else r_lookups (relay_get_handler get_ui uri) = []
          \<and> r_status (relay_get_handler get_ui uri) = ''400 Bad Request''
          \<and> r_body (relay_get_handler get_ui uri) = json_error ''Invalid relay ID''
          \<and> r_ret (relay_get_handler get_ui uri) = ESP_FAIL))
   \<and> (if 1 \<le> relay_post_id uri \<and> relay_post_id uri \<le> 6
       then r_lookups (relay_post_handler get_ui uri rcv) = [relay_post_id uri]
          \<and> r_body (relay_post_handler get_ui uri rcv) \<noteq> json_error ''Invalid relay ID''
       else r_lookups (relay_post_handler get_ui uri rcv) = []
          \<and> r_status (relay_post_handler get_ui uri rcv) = ''400 Bad Request''
          \<and> r_body (relay_post_handler get_ui uri rcv) = json_error ''Invalid relay ID''
          \<and> r_ret (relay_post_handler get_ui uri rcv) = ESP_FAIL)"
proof -
  have ne1: "json_error ''Relay not initialized'' \<noteq> json_error ''Invalid relay ID''"
    and ne2: "json_error ''No data received'' \<noteq> json_error ''Invalid relay ID''"
    and ne3: "json_state k b \<noteq> json_error ''Invalid relay ID''" for k b
    by (simp_all add: json_error_def json_state_def)
  have g: "relay_get_id uri = Some i \<longrightarrow>
      (if 1 \<le> i \<and> i \<le> 6
       then r_lookups (relay_get_handler get_ui uri) = [i]
          \<and> r_status (relay_get_handler get_ui uri) \<noteq> ''400 Bad Request''
       else r_lookups (relay_get_handler get_ui uri) = []
          \<and> r_status (relay_get_handler get_ui uri) = ''400 Bad Request''
          \<and> r_body (relay_get_handler get_ui uri) = json_error ''Invalid relay ID''
          \<and> r_ret (relay_get_handler get_ui uri) = ESP_FAIL)"
    by (auto simp: relay_get_handler_def split: option.splits)
  have p: "if 1 \<le> relay_post_id uri \<and> relay_post_id uri \<le> 6
       then r_lookups (relay_post_handler get_ui uri rcv) = [relay_post_id uri]
          \<and> r_body (relay_post_handler get_ui uri rcv) \<noteq> json_error ''Invalid relay ID''
       else r_lookups (relay_post_handler get_ui uri rcv) = []
          \<and> r_status (relay_post_handler get_ui uri rcv) = ''400 Bad Request''
          \<and> r_body (relay_post_handler get_ui uri rcv) = json_error ''Invalid relay ID''
          \<and> r_ret (relay_post_handler get_ui uri rcv) = ESP_FAIL"
    using ne1 ne2 ne3
    by (auto simp: relay_post_handler_def Let_def split: option.splits)
  from g p show ?thesis by (rule conjI)
qed

theorem relay_id_checked_against_six_witness:
  "r_lookups (relay_get_handler (relays_upto 5) ''/api/relay/3'') = [3]
   \<and> r_status (relay_get_handler (relays_upto 5) ''/api/relay/3'') \<noteq> ''400 Bad Request''
   \<and> r_lookups (relay_post_handler (relays_upto 5) ''/api/relay/3'' (Data ''{}'')) = [3]
   \<and> r_lookups (relay_get_handler (relays_upto 5) ''/api/relay/7'') = []
   \<and> r_status (relay_get_handler (relays_upto 5) ''/api/relay/7'') = ''400 Bad Request''"
  using relay_id_checked_against_six [of "''/api/relay/3''" 3 "relays_upto 5" "Data ''{}''"]
    relay_id_checked_against_six [of "''/api/relay/7''" 7 "relays_upto 5" "Data ''{}''"]
  by (simp add: get_id_3 get_id_7 post_id_3)

text \<open>
  With the five relays that \<open>example_lvgl_demo_ui\<close> creates, id 6 is outside the
  configured range, yet the GET handler looks it up and answers 503, not 400.
\<close>

theorem relay_id_six_of_five_counterexample:
  "relays_upto 5 6 = None
   \<and> relay_get_id ''/api/relay/6'' = Some 6
   \<and> r_lookups (relay_get_handler (relays_upto 5) ''/api/relay/6'') = [6]
   \<and> r_status (relay_get_handler (relays_upto 5) ''/api/relay/6'') = ''503 Service Unavailable''"
  by (simp add: get_id_6 relay_get_handler_def relays_upto_def)

subsection \<open>Traces of the receiving phase\<close>

lemma accepted_bytes_append:
  "accepted_bytes (xs @ ys) = accepted_bytes xs @ accepted_bytes ys"
proof (induction xs)
  case Nil
  show ?case by simp
next
  case (Cons e xs)
  then show ?case by (cases e) simp_all
qed

lemma quiet_no_set_boot: "list_all quiet tr \<Longrightarrow> \<not> list_ex is_set_boot tr"
proof (induction tr)
  case Nil
  show ?case by simp
next
  case (Cons e tr)
  then show ?case by (cases e) simp_all
qed

lemma quiet_no_rejected: "list_all quiet tr \<Longrightarrow> \<not> list_ex rejected tr"
proof (induction tr)
  case Nil
  show ?case by simp
next
  case (Cons e tr)
  then show ?case by (cases e) simp_all
qed

lemma quiet_no_read: "list_all quiet tr \<Longrightarrow> PartitionRead \<notin> set tr"
  by (induction tr) auto

lemma quiet_no_abort: "list_all quiet tr \<Longrightarrow> OtaAbort \<notin> set tr"
  by (induction tr) auto

lemma client_status_quiet:
  "list_all quiet tr \<Longrightarrow> client_status (tr @ es) = client_status es"
proof (induction tr)
  case Nil
  show ?case by simp
next
  case (Cons e tr)
  then show ?case by (cases e) simp_all
qed

lemmas quiet_facts =
  quiet_no_set_boot quiet_no_rejected quiet_no_read quiet_no_abort accepted_bytes_append

lemma early_stop_plain:
  assumes "receiving st"
    and "accepted_bytes es = []" "\<not> list_ex is_set_boot es" "PartitionRead \<notin> set es"
    and "\<not> list_ex rejected es"
  shows "early (stop f es st)"
  using assms by (simp add: early_def stop_def receiving_def quiet_facts)

lemma early_blocked: "receiving st \<Longrightarrow> early (stop f [] st)"
  by (rule early_stop_plain) simp_all

lemma early_recv_failed: "receiving st \<Longrightarrow> early (recv_failed st)"
  unfolding recv_failed_def by (rule early_stop_plain) simp_all

lemma early_bad_multipart: "receiving st \<Longrightarrow> early (bad_multipart st)"
  unfolding bad_multipart_def by (rule early_stop_plain) simp_all

lemma receiving_mem [simp]: "receiving (st\<lparr>u_mem := m\<rparr>) = receiving st"
  by (simp add: receiving_def)

lemma do_write_Inr:
  assumes "do_write env st off n = Inr st'" "receiving st"
  shows "receiving st' \<and> prefix (u_flash st) (u_flash st') \<and> u_mem st' = u_mem st
    \<and> u_received st' = u_received st + of_nat n
    \<and> length (u_flash st') = length (u_flash st) + n"
  using assms
  by (auto simp: do_write_def Let_def receiving_def accepted_bytes_append
      split: if_splits)

lemma do_write_Inl:
  assumes "do_write env st off n = Inl out" "receiving st"
  shows "early out \<and> flash out = u_flash st"
proof (cases "length (u_mem st) < off + n")
  case True
  with assms(1) have "out = stop Fault [] st" by (simp add: do_write_def)
  with assms(2) show ?thesis by (simp add: early_blocked) (simp add: stop_def)
next
  case False
  with assms show ?thesis
    by (auto simp: do_write_def Let_def early_def stop_def receiving_def quiet_facts
        client_status_quiet failed_def split: if_splits)
qed

lemma write_if_pos_Inr:
  assumes "write_if_pos env st off n = Inr st'" "receiving st"
  shows "receiving st' \<and> prefix (u_flash st) (u_flash st') \<and> u_mem st' = u_mem st"
  using assms do_write_Inr [of env st off n st']
  by (auto simp: write_if_pos_def split: if_splits)

lemma write_if_pos_Inl:
  assumes "write_if_pos env st off n = Inl out" "receiving st"
  shows "early out \<and> flash out = u_flash st"
  using assms do_write_Inl [of env st off n out]
  by (auto simp: write_if_pos_def split: if_splits)

lemma mp_closed_Leave: "mp_closed B cl st = Leave st"
  by (simp add: mp_closed_def Let_def)

lemma pass_ok_write_leave:
  assumes "receiving st1" "u_flash st1 = u_flash st"
  shows "pass_ok st (case write_if_pos env st1 off k of
                       Inl out \<Rightarrow> Stop out | Inr st2 \<Rightarrow> Leave st2)"
proof (cases "write_if_pos env st1 off k")
  case (Inl out)
  with write_if_pos_Inl [OF Inl assms(1)] assms(2) show ?thesis by (simp add: pass_ok_def)
next
  case (Inr st2)
  with write_if_pos_Inr [OF Inr assms(1)] assms(2) show ?thesis by (simp add: pass_ok_def)
qed

lemma pass_ok_write_again:
  assumes "receiving st1" "u_flash st1 = u_flash st"
  shows "pass_ok st (case write_if_pos env st1 off k of
                       Inl out \<Rightarrow> Stop out | Inr st2 \<Rightarrow> Again st2)"
proof (cases "write_if_pos env st1 off k")
  case (Inl out)
  with write_if_pos_Inl [OF Inl assms(1)] assms(2) show ?thesis by (simp add: pass_ok_def)
next
  case (Inr st2)
  with write_if_pos_Inr [OF Inr assms(1)] assms(2) show ?thesis by (simp add: pass_ok_def)
qed

lemma mp_data_ok:
  assumes "receiving st"
  shows "pass_ok st (mp_data env B st d)"
proof -
  define st1 where "st1 = st\<lparr>u_mem := recv_into (u_mem st) d\<rparr>"
  have r1: "receiving st1" and f1: "u_flash st1 = u_flash st"
    using assms by (simp_all add: st1_def)
  note L = pass_ok_write_leave [OF r1 f1]
  note A = pass_ok_write_again [OF r1 f1]
  show ?thesis
  proof (cases "scan_chunk B (recv_into (u_mem st) d) (length (take buf_size d))")
    case None
    show ?thesis
    proof (cases "chunk_tail B (recv_into (u_mem st) d) (length (take buf_size d))")
      case N: None
      with None A [of env 0 "length (take buf_size d)"] show ?thesis
        by (simp add: mp_data_def Let_def st1_def)
    next
      case (Some write_len)
      with None L [of env 0 write_len] show ?thesis
        by (simp add: mp_data_def Let_def st1_def)
    qed
  next
    case (Some r)
    obtain k fb where r: "r = (k, fb)" by (cases r)
    show ?thesis
    proof (cases fb)
      case True
      with Some r L [of env 0 k] show ?thesis by (simp add: mp_data_def Let_def st1_def)
    next
      case False
      with Some r A [of env 0 k] show ?thesis by (simp add: mp_data_def Let_def st1_def)
    qed
  qed
qed

lemma mp_data_cases:
  assumes "receiving st"
  shows "case mp_data env B st d of
           Stop out \<Rightarrow> early out \<and> flash out = u_flash st
         | Leave st' \<Rightarrow> receiving st' \<and> prefix (u_flash st) (u_flash st')
         | Again st' \<Rightarrow> receiving st' \<and> prefix (u_flash st) (u_flash st')"
  using mp_data_ok [OF assms, of env B d] by (simp add: pass_ok_def)

lemma mp_pass_cases:
  assumes "receiving st"
  shows "case mp_pass env B cl st ev of
           Stop out \<Rightarrow> early out \<and> flash out = u_flash st
         | Leave st' \<Rightarrow> receiving st' \<and> prefix (u_flash st) (u_flash st')
         | Again st' \<Rightarrow> receiving st' \<and> prefix (u_flash st) (u_flash st')"
proof (cases ev)
  case (Data d)
  show ?thesis
  proof (cases "take buf_size d = []")
    case True
    with Data assms show ?thesis by (simp add: mp_pass_def mp_closed_Leave)
  next
    case False
    with Data have "mp_pass env B cl st ev = mp_data env B st d" by (simp add: mp_pass_def)
    then show ?thesis using mp_data_cases [OF assms, of env B d] by simp
  qed
next
  case Closed
  with assms show ?thesis by (simp add: mp_pass_def mp_closed_Leave)
next
  case Timeout
  with assms show ?thesis by (simp add: mp_pass_def)
next
  case SockErr
  with assms show ?thesis by (simp add: mp_pass_def early_recv_failed) (simp add: recv_failed_def stop_def)
qed

lemma pass_ok_do_write_again:
  assumes "receiving st1" "u_flash st1 = u_flash st"
  shows "pass_ok st (case do_write env st1 off k of
                       Inl out \<Rightarrow> Stop out | Inr st2 \<Rightarrow> Again st2)"
proof (cases "do_write env st1 off k")
  case (Inl out)
  with do_write_Inl [OF Inl assms(1)] assms(2) show ?thesis by (simp add: pass_ok_def)
next
  case (Inr st2)
  with do_write_Inr [OF Inr assms(1)] assms(2) show ?thesis by (simp add: pass_ok_def)
qed

lemma raw_pass_cases:
  assumes "receiving st"
  shows "case raw_pass env st ev of
           Stop out \<Rightarrow> early out \<and> flash out = u_flash st
         | Leave st' \<Rightarrow> receiving st' \<and> prefix (u_flash st) (u_flash st')
         | Again st' \<Rightarrow> receiving st' \<and> prefix (u_flash st) (u_flash st')"
proof (cases ev)
  case (Data d)
  define st1 where "st1 = st\<lparr>u_mem := recv_into (u_mem st) d\<rparr>"
  have r1: "receiving st1" and f1: "u_flash st1 = u_flash st"
    using assms by (simp_all add: st1_def)
  show ?thesis
  proof (cases "take buf_size d = []")
    case True
    with Data assms show ?thesis by (simp add: raw_pass_def)
  next
    case False
    with Data have "raw_pass env st ev =
        (case do_write env st1 0 (length (take buf_size d)) of
           Inl out \<Rightarrow> Stop out | Inr st2 \<Rightarrow> Again st2)"
      by (simp add: raw_pass_def st1_def)
    with pass_ok_do_write_again [OF r1 f1, of env 0 "length (take buf_size d)"]
    show ?thesis by (simp add: pass_ok_def)
  qed
next
  case Closed
  with assms show ?thesis by (simp add: raw_pass_def)
next
  case Timeout
  with assms show ?thesis by (simp add: raw_pass_def)
next
  case SockErr
  with assms show ?thesis
    by (simp add: raw_pass_def early_recv_failed) (simp add: recv_failed_def stop_def)
qed

lemma mp_loop_cases:
  "receiving st \<Longrightarrow>
   (case mp_loop env B cl st evs of
      Inl out \<Rightarrow> early out \<and> prefix (u_flash st) (flash out)
    | Inr st' \<Rightarrow> receiving st' \<and> prefix (u_flash st) (u_flash st'))"
proof (induction evs arbitrary: st)
  case Nil
  then show ?case by (simp add: early_blocked) (simp add: stop_def)
next
  case (Cons ev evs)
  show ?case
  proof (cases "keep_reading cl st")
    case False
    with Cons.prems show ?thesis by simp
  next
    case True
    note p = mp_pass_cases [OF Cons.prems, of env B cl ev]
    show ?thesis
    proof (cases "mp_pass env B cl st ev")
      case (Stop out)
      with True p show ?thesis by simp
    next
      case (Leave st')
      with True p show ?thesis by simp
    next
      case (Again st')
      with p have r: "receiving st'" and pf: "prefix (u_flash st) (u_flash st')" by simp_all
      from Cons.IH [OF r] pf True Again show ?thesis
        by (auto split: sum.splits intro: prefix_order.trans)
    qed
  qed
qed

lemma raw_loop_cases:
  "receiving st \<Longrightarrow>
   (case raw_loop env cl st evs of
      Inl out \<Rightarrow> early out \<and> prefix (u_flash st) (flash out)
    | Inr st' \<Rightarrow> receiving st' \<and> prefix (u_flash st) (u_flash st'))"
proof (induction evs arbitrary: st)
  case Nil
  then show ?case by (simp add: early_blocked) (simp add: stop_def)
next
  case (Cons ev evs)
  show ?case
  proof (cases "keep_reading cl st")
    case False
    with Cons.prems show ?thesis by simp
  next
    case True
    note p = raw_pass_cases [OF Cons.prems, of env ev]
    show ?thesis
    proof (cases "raw_pass env st ev")
      case (Stop out)
      with True p show ?thesis by simp
    next
      case (Leave st')
      with True p show ?thesis by simp
    next
      case (Again st')
      with p have r: "receiving st'" and pf: "prefix (u_flash st) (u_flash st')" by simp_all
      from Cons.IH [OF r] pf True Again show ?thesis
        by (auto split: sum.splits intro: prefix_order.trans)
    qed
  qed
qed

lemma first_chunk_cases:
  assumes "receiving st"
  shows "case first_chunk env B st n of
           Inl out \<Rightarrow> early out
         | Inr st' \<Rightarrow> receiving st'"
proof -
  define P where "P = (\<lambda>r. case r of Inl out \<Rightarrow> early out | Inr st' \<Rightarrow> receiving st')"
  have w: "P (write_if_pos env st off k)" for off k
  proof (cases "write_if_pos env st off k")
    case (Inl out)
    with write_if_pos_Inl [OF Inl assms] show ?thesis by (simp add: P_def)
  next
    case (Inr st2)
    with write_if_pos_Inr [OF Inr assms] show ?thesis by (simp add: P_def)
  qed
  have e: "P (Inl (stop (Returned ESP_FAIL)
             [OtaAbort, Respond ''500 Internal Server Error'' ''Invalid multipart data''] st))"
    unfolding P_def using assms by (simp add: early_stop_plain)
  have b: "P (Inl (bad_multipart st))"
    unfolding P_def using assms by (simp add: early_bad_multipart)
  have "P (first_chunk env B st n)"
  proof (cases "find_binary_start B (u_mem st) n")
    case None
    with b show ?thesis by (simp add: first_chunk_def)
  next
    case (Some bs0)
    show ?thesis
    proof (cases "(of_nat n - of_nat bs0 :: size_t) = 0")
      case True
      with Some b show ?thesis by (simp add: first_chunk_def)
    next
      case False
      show ?thesis
      proof (cases "if byte_at (u_mem st) bs0 = CHR 0x2D
                    then map_option (\<lambda>j. bs0 + 1 + j + 4)
                           (strstr (drop (bs0 + 1) (u_mem st)) (CRLF @ CRLF))
                    else Some bs0")
        case None
        with Some False b show ?thesis by (simp add: first_chunk_def Let_def)
      next
        case S: (Some bs)
        show ?thesis
        proof (cases "B \<noteq> [] \<and> length (''--'' @ B) \<le> unat (of_nat n - of_nat bs :: size_t)
                        \<and> prefix (''--'' @ B) (drop bs (u_mem st))")
          case True
          with Some False S e show ?thesis by (simp add: first_chunk_def Let_def)
        next
          case F: False
          from Some False S F have
            "first_chunk env B st n = write_if_pos env st bs (unat (of_nat n - of_nat bs :: size_t))"
            by (auto simp: first_chunk_def Let_def)
          with w show ?thesis by simp
        qed
      qed
    qed
  qed
  then show ?thesis by (simp add: P_def)
qed

text \<open>
  Every run of the handler either ends before the validation starts, or is the
  finalisation of a state reached by accepted writes only.
\<close>

lemma receive_body_shape:
  assumes r: "receiving st"
  shows "early (receive_body req env st n rest)
    \<or> (\<exists>st'. receiving st' \<and> receive_body req env st n rest = finalize env st')"
proof (cases "header_multipart req \<or> starts_dashes (u_mem st) n")
  case True
  define B where "B = extract_boundary (hdr_buf (hdr_content_type req)) (u_mem st) n"
  note fc = first_chunk_cases [OF r, of env B n]
  show ?thesis
  proof (cases "first_chunk env B st n")
    case (Inl out)
    with fc have "early out" by simp
    moreover from True Inl have "receive_body req env st n rest = out"
      by (simp add: receive_body_def B_def)
    ultimately show ?thesis by simp
  next
    case (Inr st1)
    with fc have r1: "receiving st1" by simp
    note ml = mp_loop_cases [OF r1, of env B "effective_content_len req" rest]
    show ?thesis
    proof (cases "mp_loop env B (effective_content_len req) st1 rest")
      case L: (Inl out)
      with ml have "early out" by simp
      moreover from True Inr L have "receive_body req env st n rest = out"
        by (simp add: receive_body_def B_def)
      ultimately show ?thesis by simp
    next
      case R: (Inr st2)
      with ml have "receiving st2" by simp
      moreover from True Inr R have "receive_body req env st n rest = finalize env st2"
        by (simp add: receive_body_def B_def)
      ultimately show ?thesis by blast
    qed
  qed
next
  case False
  note rl = raw_loop_cases [OF r, of env "effective_content_len req" rest]
  show ?thesis
  proof (cases "raw_loop env (effective_content_len req) st rest")
    case (Inl out)
    with rl have "early out" by simp
    moreover from False Inl have "receive_body req env st n rest = out"
      by (simp add: receive_body_def)
    ultimately show ?thesis by simp
  next
    case (Inr st2)
    with rl have "receiving st2" by simp
    moreover from False Inr have "receive_body req env st n rest = finalize env st2"
      by (simp add: receive_body_def)
    ultimately show ?thesis by blast
  qed
qed

lemma receive_and_finalize_shape:
  assumes "receiving st0"
  shows "early (receive_and_finalize req env st0 evs)
    \<or> (\<exists>st. receiving st \<and> receive_and_finalize req env st0 evs = finalize env st)"
proof (cases evs)
  case Nil
  with assms show ?thesis by (simp add: early_blocked)
next
  case (Cons ev rest)
  show ?thesis
  proof (cases ev)
    case (Data d)
    have "receiving (st0\<lparr>u_mem := recv_into (u_mem st0) d\<rparr>)" using assms by simp
    from receive_body_shape [OF this] Cons Data show ?thesis by simp
  next
    case Closed
    from receive_body_shape [OF assms] Cons Closed show ?thesis by simp
  next
    case Timeout
    with Cons assms show ?thesis by (simp add: early_recv_failed)
  next
    case SockErr
    with Cons assms show ?thesis by (simp add: early_recv_failed)
  qed
qed

lemma handler_shape:
  "early (update_post_handler req env evs)
   \<or> (\<exists>st. receiving st \<and> update_post_handler req env evs = finalize env st)"
proof -
  let ?st0 = "\<lparr>u_mem = init_mem env, u_flash = [], u_received = 0,
               u_trace = [OtaBegin ESP_OK]\<rparr>"
  have r0: "receiving ?st0" by (simp add: receiving_def)
  show ?thesis
  proof (cases "next_update_partition env \<and> ota_begin env = ESP_OK \<and> malloc_ok env")
    case True
    then have "update_post_handler req env evs = receive_and_finalize req env ?st0 evs"
      by (simp add: update_post_handler_def)
    with receive_and_finalize_shape [OF r0, of req env evs] show ?thesis by simp
  next
    case False
    then have "early (update_post_handler req env evs)"
      by (auto simp: update_post_handler_def early_def no_effects_def)
    then show ?thesis ..
  qed
qed

subsection \<open>Validation and boot switch\<close>

lemma responses_quiet: "list_all quiet tr \<Longrightarrow> responses (tr @ es) = responses es"
proof (induction tr)
  case Nil
  show ?case by simp
next
  case (Cons e tr)
  then show ?case by (cases e) simp_all
qed

lemma set_boot_in_quiet: "list_all quiet tr \<Longrightarrow> SetBoot e \<notin> set tr"
  by (induction tr) auto

lemma early_no_set_boot: "early out \<Longrightarrow> SetBoot e \<notin> set (trace out)"
proof
  assume e: "early out" and m: "SetBoot e \<in> set (trace out)"
  have "is_set_boot (SetBoot e)" by simp
  with m have "list_ex is_set_boot (trace out)" unfolding list_ex_iff by blast
  with e show False by (simp add: early_def)
qed

text \<open>The five ways the finalisation can go, for a state reached by accepted writes.\<close>

lemma finalize_bad_magic:
  assumes "\<not> (fst (partition_read env (u_flash st)) = ESP_OK
              \<and> snd (partition_read env (u_flash st)) = CHR 0xE9)"
  shows "finalize env st =
     stop (Returned ESP_ERR_INVALID_ARG)
       [PartitionRead, OtaAbort,
        Respond ''400 Bad Request'' ''Image validation failed - invalid magic byte''] st"
  using assms by (simp add: finalize_def Let_def)

lemma finalize_end_invalid:
  assumes "fst (partition_read env (u_flash st)) = ESP_OK"
    "snd (partition_read env (u_flash st)) = CHR 0xE9"
    "ota_end env (u_flash st) = ESP_ERR_OTA_VALIDATE_FAILED"
  shows "finalize env st =
     stop (Returned ESP_ERR_OTA_VALIDATE_FAILED)
       [PartitionRead, OtaEnd ESP_ERR_OTA_VALIDATE_FAILED,
        Respond ''400 Bad Request'' ''Image validation failed''] st"
  using assms
  by (simp add: finalize_def Let_def ESP_ERR_OTA_VALIDATE_FAILED_def ESP_OK_def)

lemma finalize_trace_cases:
  "trace (finalize env st) = u_trace st @
      [PartitionRead, OtaAbort,
       Respond ''400 Bad Request'' ''Image validation failed - invalid magic byte'']
   \<or> (\<exists>err. err \<noteq> ESP_OK \<and> fin (finalize env st) = Returned err
         \<and> (\<exists>s b. trace (finalize env st) = u_trace st @
               [PartitionRead, OtaEnd err, Respond s b]))
   \<or> trace (finalize env st) = u_trace st @
        [PartitionRead, OtaEnd ESP_OK,
         Respond ''200 OK'' ''Firmware update successful! Device will reboot...'',
         Delay 2000,
         Respond ''500 Internal Server Error'' ''Could not find boot partition'']
   \<or> (set_boot_partition env \<noteq> ESP_OK
       \<and> fin (finalize env st) = Returned (set_boot_partition env)
       \<and> trace (finalize env st) = u_trace st @
            [PartitionRead, OtaEnd ESP_OK,
             Respond ''200 OK'' ''Firmware update successful! Device will reboot...'',
             Delay 2000, SetBoot (set_boot_partition env)])
   \<or> (fin (finalize env st) = Restarted
       \<and> trace (finalize env st) = u_trace st @
            [PartitionRead, OtaEnd ESP_OK,
             Respond ''200 OK'' ''Firmware update successful! Device will reboot...'',
             Delay 2000, SetBoot ESP_OK, Delay 1000, Restart])"
  by (simp add: finalize_def Let_def stop_def)

lemma finalize_flash: "flash (finalize env st) = u_flash st"
  by (simp add: finalize_def Let_def stop_def)

lemma finalize_received: "received (finalize env st) = u_received st"
  by (simp add: finalize_def Let_def stop_def)

lemma finalize_counts:
  assumes "receiving st"
  shows "flash (finalize env st) = accepted_bytes (trace (finalize env st))
    \<and> received (finalize env st) = of_nat (length (flash (finalize env st)))
    \<and> \<not> list_ex rejected (trace (finalize env st))"
proof -
  from assms have q: "list_all quiet (u_trace st)"
    and f: "u_flash st = accepted_bytes (u_trace st)"
    and r: "u_received st = of_nat (length (u_flash st))"
    by (simp_all add: receiving_def)
  from q have nr: "\<not> list_ex rejected (u_trace st)" by (rule quiet_no_rejected)
  from finalize_trace_cases [of env st] f nr
  have "u_flash st = accepted_bytes (trace (finalize env st))
      \<and> \<not> list_ex rejected (trace (finalize env st))"
    by (auto simp: accepted_bytes_append)
  with r show ?thesis by (simp add: finalize_flash finalize_received)
qed

text \<open>
  Claim C4, as the code has it. When the boot-target switch fails after the validation
  has passed, the handler returns the error code of \<open>esp_ota_set_boot_partition\<close> to the
  server, but the HTTP client is not told: the one response of the run is the 200 success
  message, sent before the switch was tried, and nothing is sent after the failure. The
  validated image is not discarded: \<open>esp_ota_abort\<close> is not called.
\<close>

theorem boot_switch_failure_after_200:
  assumes "SetBoot e \<in> set (trace (update_post_handler req env evs))" "e \<noteq> ESP_OK"
  shows "fin (update_post_handler req env evs) = Returned e
    \<and> responses (trace (update_post_handler req env evs))
        = [(''200 OK'', ''Firmware update successful! Device will reboot...'')]
    \<and> last (trace (update_post_handler req env evs)) = SetBoot e
    \<and> OtaEnd ESP_OK \<in> set (trace (update_post_handler req env evs))
    \<and> OtaAbort \<notin> set (trace (update_post_handler req env evs))"
proof -
  let ?out = "update_post_handler req env evs"
  from handler_shape [of req env evs] assms(1) early_no_set_boot [of ?out e]
  obtain st where r: "receiving st" and eq: "?out = finalize env st" by blast
  from r have q: "list_all quiet (u_trace st)" by (simp add: receiving_def)
  note nb = set_boot_in_quiet [OF q] and na = quiet_no_abort [OF q]
  from finalize_trace_cases [of env st] assms nb
  have t: "trace (finalize env st) = u_trace st @
            [PartitionRead, OtaEnd ESP_OK,
             Respond ''200 OK'' ''Firmware update successful! Device will reboot...'',
             Delay 2000, SetBoot e]"
    and f: "fin (finalize env st) = Returned e"
    unfolding eq by auto
  from t f na q show ?thesis unfolding eq by (simp add: responses_quiet)
qed

text \<open>
  Claim C6. Once the handler has reached the validation, a first byte read back from the
  region that is not \<open>0xE9\<close>, or an \<open>esp_ota_end\<close> that reports a failed image
  validation, makes the handler answer 400 and return an error. The region is given up
  (by \<open>esp_ota_abort\<close> when the magic byte is wrong, by the failing \<open>esp_ota_end\<close>
  itself otherwise), the boot target is never set and the device is not restarted.
\<close>

theorem validation_failure_is_400:
  assumes reached: "PartitionRead \<in> set (trace (update_post_handler req env evs))"
    and bad: "snd (partition_read env (flash (update_post_handler req env evs))) \<noteq> CHR 0xE9
      \<or> ota_end env (flash (update_post_handler req env evs)) = ESP_ERR_OTA_VALIDATE_FAILED"
  shows "client_status (trace (update_post_handler req env evs)) = Some ''400 Bad Request''
    \<and> failed (fin (update_post_handler req env evs))
    \<and> region_released (trace (update_post_handler req env evs))
    \<and> \<not> list_ex is_set_boot (trace (update_post_handler req env evs))
    \<and> Restart \<notin> set (trace (update_post_handler req env evs))
    \<and> (snd (partition_read env (flash (update_post_handler req env evs))) \<noteq> CHR 0xE9
        \<longrightarrow> OtaAbort \<in> set (trace (update_post_handler req env evs)))"
proof -
  let ?out = "update_post_handler req env evs"
  from handler_shape [of req env evs] reached
  obtain st where r: "receiving st" and eq: "?out = finalize env st"
    by (auto simp: early_def)
  from r have q: "list_all quiet (u_trace st)" by (simp add: receiving_def)
  note nb = quiet_no_set_boot [OF q]
  have nr: "Restart \<notin> set (u_trace st)" using q by (induction "u_trace st") (auto simp: list_all_iff)
  from bad have bad': "snd (partition_read env (u_flash st)) \<noteq> CHR 0xE9
      \<or> ota_end env (u_flash st) = ESP_ERR_OTA_VALIDATE_FAILED"
    by (simp add: eq finalize_flash)
  show ?thesis
  proof (cases "fst (partition_read env (u_flash st)) = ESP_OK
              \<and> snd (partition_read env (u_flash st)) = CHR 0xE9")
    case False
    from finalize_bad_magic [OF False] q nb nr show ?thesis
      unfolding eq
      by (simp add: stop_def client_status_quiet failed_def region_released_def
          ESP_ERR_INVALID_ARG_def ESP_OK_def)
  next
    case True
    with bad' have e: "ota_end env (u_flash st) = ESP_ERR_OTA_VALIDATE_FAILED" by simp
    from True have a: "fst (partition_read env (u_flash st)) = ESP_OK"
      and b: "snd (partition_read env (u_flash st)) = CHR 0xE9" by simp_all
    from finalize_end_invalid [OF a b e] q nb nr b show ?thesis
      unfolding eq
      by (simp add: stop_def client_status_quiet failed_def region_released_def
          ESP_ERR_OTA_VALIDATE_FAILED_def ESP_OK_def)
  qed
qed

subsection \<open>Evaluating the handler on example uploads\<close>

lemma cstr_simps:
  "cstr [] = []"
  "cstr (c # cs) = (if c = CHR 0x00 then [] else c # cstr cs)"
  "cstr (replicate n (CHR 0x00) @ xs) = (if n = 0 then cstr xs else [])"
  "cstr (replicate n (CHR 0x00)) = []"
  by (cases n; simp add: cstr_def NUL_def)+

lemma tail_scan_unfold:
  "0 < n \<Longrightarrow> tail_scan B m recv_len i n =
     (if byte_at m i = CHR ''-'' \<and> byte_at m (i + 1) = CHR ''-'' then
        (if i + length (''--'' @ B @ ''--'') \<le> recv_len
            \<and> prefix (''--'' @ B @ ''--'') (drop i m)
         then Some (cut_before m i)
         else if i + length (''--'' @ B) \<le> recv_len \<and> prefix (''--'' @ B) (drop i m)
         then Some (cut_before m i)
         else tail_scan B m recv_len (Suc i) (n - 1))
      else tail_scan B m recv_len (Suc i) (n - 1))"
  by (cases n) simp_all

lemmas char_defs = NUL_def CR_def LF_def CRLF_def DQ_def SQ_def

lemmas code_defs = ESP_OK_def ESP_FAIL_def ESP_ERR_NO_MEM_def ESP_ERR_INVALID_ARG_def
  ESP_ERR_NOT_FOUND_def ESP_ERR_OTA_VALIDATE_FAILED_def

lemmas handler_defs = update_post_handler_def receive_body_def first_chunk_def
  find_binary_start_def extract_boundary_def header_boundary_def data_boundary_def
  starts_dashes_def header_multipart_def hdr_buf_def effective_content_len_def
  mp_pass_def mp_data_def mp_closed_def scan_chunk_def chunk_tail_def cut_before_def
  tail_scan_unfold raw_pass_def keep_reading_def finalize_def stop_def recv_failed_def
  bad_multipart_def do_write_def write_if_pos_def recv_into_def init_mem_def byte_at_def
  buf_size_def strstr_def strchr_def is_blank_def no_effects_def flash_platform_def Let_def
  cstr_simps

lemmas upload_defs = upload_req_def part_head_def final_marker_def wrap_multipart_def
  firmware3_def

lemma run_boot_switch_fails:
  "update_post_handler (upload_req 0) (flash_platform 100 ESP_FAIL) chunks_marker_whole =
     \<lparr>fin = Returned ESP_FAIL,
      trace = [OtaBegin ESP_OK, OtaWrite [CHR 0xE9, CHR 0x01] ESP_OK,
               OtaWrite [CHR 0x02] ESP_OK, PartitionRead, OtaEnd ESP_OK,
               Respond ''200 OK'' ''Firmware update successful! Device will reboot...'',
               Delay 2000, SetBoot ESP_FAIL],
      flash = firmware3, received = 3\<rparr>"
  by (simp add: chunks_marker_whole_def upload_defs handler_defs char_defs code_defs)

lemma run_bad_magic:
  "update_post_handler (upload_req 0) (flash_platform 100 ESP_OK) chunks_bad_magic =
     \<lparr>fin = Returned ESP_ERR_INVALID_ARG,
      trace = [OtaBegin ESP_OK, OtaWrite [CHR 0x00, CHR 0x01] ESP_OK,
               OtaWrite [CHR 0x02] ESP_OK, PartitionRead, OtaAbort,
               Respond ''400 Bad Request'' ''Image validation failed - invalid magic byte''],
      flash = [CHR 0x00, CHR 0x01, CHR 0x02], received = 3\<rparr>"
  by (simp add: chunks_bad_magic_def upload_defs handler_defs char_defs code_defs)

theorem boot_switch_failure_after_200_witness:
  "fin (update_post_handler (upload_req 0) (flash_platform 100 ESP_FAIL) chunks_marker_whole)
     = Returned ESP_FAIL
   \<and> responses (trace (update_post_handler (upload_req 0) (flash_platform 100 ESP_FAIL)
                         chunks_marker_whole))
       = [(''200 OK'', ''Firmware update successful! Device will reboot...'')]"
proof -
  have a: "SetBoot ESP_FAIL \<in> set (trace (update_post_handler (upload_req 0)
             (flash_platform 100 ESP_FAIL) chunks_marker_whole))"
    by (simp add: run_boot_switch_fails)
  have b: "ESP_FAIL \<noteq> ESP_OK" by (simp add: code_defs)
  from boot_switch_failure_after_200 [OF a b] show ?thesis by simp
qed

text \<open>
  The boot switch fails, the handler returns \<open>ESP_FAIL\<close>, and the client has been
  answered 200 and nothing else: the error is not surfaced to the HTTP caller.
\<close>

theorem boot_switch_failure_counterexample:
  "set_boot_partition (flash_platform 100 ESP_FAIL) \<noteq> ESP_OK
   \<and> fin (update_post_handler (upload_req 0) (flash_platform 100 ESP_FAIL)
            chunks_marker_whole) = Returned ESP_FAIL
   \<and> client_status (trace (update_post_handler (upload_req 0) (flash_platform 100 ESP_FAIL)
                              chunks_marker_whole)) = Some ''200 OK''
   \<and> last (trace (update_post_handler (upload_req 0) (flash_platform 100 ESP_FAIL)
                     chunks_marker_whole)) = SetBoot ESP_FAIL"
  by (simp add: run_boot_switch_fails) (simp add: flash_platform_def code_defs)

theorem validation_failure_is_400_witness:
  "client_status (trace (update_post_handler (upload_req 0) (flash_platform 100 ESP_OK)
                           chunks_bad_magic)) = Some ''400 Bad Request''
   \<and> OtaAbort \<in> set (trace (update_post_handler (upload_req 0) (flash_platform 100 ESP_OK)
                              chunks_bad_magic))
   \<and> \<not> list_ex is_set_boot (trace (update_post_handler (upload_req 0)
                                      (flash_platform 100 ESP_OK) chunks_bad_magic))"
proof -
  let ?out = "update_post_handler (upload_req 0) (flash_platform 100 ESP_OK) chunks_bad_magic"
  have a: "PartitionRead \<in> set (trace ?out)" by (simp add: run_bad_magic)
  have b: "snd (partition_read (flash_platform 100 ESP_OK) (flash ?out)) \<noteq> CHR 0xE9"
    by (simp add: run_bad_magic) (simp add: flash_platform_def)
  from validation_failure_is_400 [OF a disjI1, OF b] b show ?thesis by blast
qed

subsection \<open>Timeouts and connection close\<close>

lemma mp_loop_done: "\<not> keep_reading cl st \<Longrightarrow> mp_loop env B cl st evs = Inr st"
  by (cases evs) simp_all

lemma raw_loop_done: "\<not> keep_reading cl st \<Longrightarrow> raw_loop env cl st evs = Inr st"
  by (cases evs) simp_all













text \<open>
  Claim C7. While the multipart loop is still reading (no terminator found, more bytes
  expected or the length unknown), a closed connection ends the loop without an error
  and the handler goes on to finalise what it has written so far: when the content
  length is known and the bytes accepted are within the tolerance the code computes
  (boundary overhead plus 100 bytes, in \<open>size_t\<close> arithmetic) of it, and when the
  content length is unknown (0).
\<close>

theorem close_before_terminator_completes:
  assumes "keep_reading cl st"
    and "cl = 0
      \<or> (0 < cl
          \<and> cl - (if B \<noteq> [] then of_nat (length B) + 6 else 200) - 100 \<le> u_received st)"
  shows "mp_loop env B cl st (Closed # evs) = Inr st
    \<and> (case mp_loop env B cl st (Closed # evs) of
          Inl out \<Rightarrow> out
        | Inr st2 \<Rightarrow> finalize env st2) = finalize env st"
  using assms by (simp add: mp_pass_def mp_closed_def Let_def)

lemma run_closed_early:
  "update_post_handler (upload_req 156) (flash_platform 200 ESP_OK) chunks_closed_early =
     \<lparr>fin = Restarted,
      trace = [OtaBegin ESP_OK, OtaWrite firmware100 ESP_OK, PartitionRead, OtaEnd ESP_OK,
               Respond ''200 OK'' ''Firmware update successful! Device will reboot...'',
               Delay 2000, SetBoot ESP_OK, Delay 1000, Restart],
      flash = firmware100, received = 100\<rparr>"
  by (simp add: chunks_closed_early_def firmware100_def upload_defs handler_defs char_defs
      code_defs)

theorem close_before_terminator_completes_witness:
  "mp_loop (flash_platform 200 ESP_OK) ''X'' 156 closed_early_state [Closed]
     = Inr closed_early_state
   \<and> mp_loop (flash_platform 200 ESP_OK) ''X'' 0 closed_early_state [Closed]
       = Inr closed_early_state
   \<and> length (wrap_multipart firmware100 ''X'') = 156
   \<and> fin (update_post_handler (upload_req 156) (flash_platform 200 ESP_OK)
            chunks_closed_early) = Restarted
   \<and> flash (update_post_handler (upload_req 156) (flash_platform 200 ESP_OK)
              chunks_closed_early) = firmware100"
proof -
  have k: "keep_reading 156 closed_early_state" "keep_reading 0 closed_early_state"
    by (simp_all add: keep_reading_def closed_early_state_def)
  have t: "(156 :: size_t) = 0
      \<or> (0 < (156 :: size_t)
          \<and> 156 - (if ''X'' \<noteq> [] then of_nat (length ''X'') + 6 else 200) - 100
              \<le> u_received closed_early_state)"
    by (simp add: closed_early_state_def)
  have z: "(0 :: size_t) = 0
      \<or> (0 < (0 :: size_t)
          \<and> 0 - (if ''X'' \<noteq> [] then of_nat (length ''X'') + 6 else 200) - 100
              \<le> u_received closed_early_state)"
    by simp
  have l: "length (wrap_multipart firmware100 ''X'') = 156"
    by (simp add: upload_defs firmware100_def CRLF_def)
  from close_before_terminator_completes [OF k(1) t, of "flash_platform 200 ESP_OK" "[]"]
    close_before_terminator_completes [OF k(2) z, of "flash_platform 200 ESP_OK" "[]"] l
  show ?thesis by (simp add: run_closed_early)
qed

subsection \<open>The accepted-byte counter\<close>

lemma handler_counts:
  "flash (update_post_handler req env evs) = accepted_bytes (trace (update_post_handler req env evs))
   \<and> received (update_post_handler req env evs)
       = of_nat (length (flash (update_post_handler req env evs)))
   \<and> (list_ex rejected (trace (update_post_handler req env evs)) \<longrightarrow>
        OtaAbort \<in> set (trace (update_post_handler req env evs))
        \<and> failed (fin (update_post_handler req env evs))
        \<and> client_status (trace (update_post_handler req env evs))
            = Some ''500 Internal Server Error''
        \<and> \<not> list_ex is_set_boot (trace (update_post_handler req env evs))
        \<and> PartitionRead \<notin> set (trace (update_post_handler req env evs)))"
proof -
  let ?out = "update_post_handler req env evs"
  from handler_shape [of req env evs] show ?thesis
  proof
    assume "early ?out"
    then show ?thesis by (simp add: early_def)
  next
    assume "\<exists>st. receiving st \<and> ?out = finalize env st"
    then obtain st where r: "receiving st" and eq: "?out = finalize env st" by blast
    from finalize_counts [OF r, of env] show ?thesis unfolding eq by simp
  qed
qed

lemma res_flash_finalize:
  "flash (case r of Inl out \<Rightarrow> out | Inr st2 \<Rightarrow> finalize env st2) = res_flash r"
  by (cases r) (simp_all add: res_flash_def finalize_flash)

lemma mp_loop_res_flash:
  "receiving st \<Longrightarrow> prefix (u_flash st) (res_flash (mp_loop env B cl st evs))"
  using mp_loop_cases [of st env B cl evs]
  by (cases "mp_loop env B cl st evs") (simp_all add: res_flash_def)

lemma raw_loop_res_flash:
  "receiving st \<Longrightarrow> prefix (u_flash st) (res_flash (raw_loop env cl st evs))"
  using raw_loop_cases [of st env cl evs]
  by (cases "raw_loop env cl st evs") (simp_all add: res_flash_def)

lemma mp_loop_extend:
  "receiving st \<Longrightarrow>
   prefix (res_flash (mp_loop env B cl st evs)) (res_flash (mp_loop env B cl st (evs @ later)))"
proof (induction evs arbitrary: st)
  case Nil
  have "res_flash (mp_loop env B cl st []) = u_flash st"
    by (simp add: res_flash_def stop_def)
  with mp_loop_res_flash [OF Nil, of env B cl later] show ?case by simp
next
  case (Cons ev evs)
  show ?case
  proof (cases "keep_reading cl st")
    case False
    then show ?thesis by (simp add: mp_loop_done)
  next
    case True
    note p = mp_pass_cases [OF Cons.prems, of env B cl ev]
    show ?thesis
    proof (cases "mp_pass env B cl st ev")
      case (Stop out)
      with True show ?thesis by simp
    next
      case (Leave st')
      with True show ?thesis by simp
    next
      case (Again st')
      with p have "receiving st'" by simp
      from Cons.IH [OF this] True Again show ?thesis by simp
    qed
  qed
qed

lemma raw_loop_extend:
  "receiving st \<Longrightarrow>
   prefix (res_flash (raw_loop env cl st evs)) (res_flash (raw_loop env cl st (evs @ later)))"
proof (induction evs arbitrary: st)
  case Nil
  have "res_flash (raw_loop env cl st []) = u_flash st"
    by (simp add: res_flash_def stop_def)
  with raw_loop_res_flash [OF Nil, of env cl later] show ?case by simp
next
  case (Cons ev evs)
  show ?case
  proof (cases "keep_reading cl st")
    case False
    then show ?thesis by (simp add: raw_loop_done)
  next
    case True
    note p = raw_pass_cases [OF Cons.prems, of env ev]
    show ?thesis
    proof (cases "raw_pass env st ev")
      case (Stop out)
      with True show ?thesis by simp
    next
      case (Leave st')
      with True show ?thesis by simp
    next
      case (Again st')
      with p have "receiving st'" by simp
      from Cons.IH [OF this] True Again show ?thesis by simp
    qed
  qed
qed

lemma receive_body_extend:
  assumes r: "receiving st"
  shows "prefix (flash (receive_body req env st n evs))
           (flash (receive_body req env st n (evs @ later)))"
proof (cases "header_multipart req \<or> starts_dashes (u_mem st) n")
  case True
  define B where "B = extract_boundary (hdr_buf (hdr_content_type req)) (u_mem st) n"
  note fc = first_chunk_cases [OF r, of env B n]
  show ?thesis
  proof (cases "first_chunk env B st n")
    case (Inl out)
    with True show ?thesis by (simp add: receive_body_def B_def)
  next
    case (Inr st1)
    with fc have r1: "receiving st1" by simp
    from True Inr have "flash (receive_body req env st n es)
        = res_flash (mp_loop env B (effective_content_len req) st1 es)" for es
      by (simp add: receive_body_def B_def res_flash_finalize)
    with mp_loop_extend [OF r1] show ?thesis by simp
  qed
next
  case False
  then have "flash (receive_body req env st n es)
      = res_flash (raw_loop env (effective_content_len req) st es)" for es
    by (simp add: receive_body_def res_flash_finalize)
  with raw_loop_extend [OF r] show ?thesis by simp
qed

lemma handler_extend:
  "prefix (flash (update_post_handler req env evs))
     (flash (update_post_handler req env (evs @ later)))"
proof (cases "next_update_partition env \<and> ota_begin env = ESP_OK \<and> malloc_ok env")
  case False
  then show ?thesis by (auto simp: update_post_handler_def)
next
  case True
  let ?st0 = "\<lparr>u_mem = init_mem env, u_flash = [], u_received = 0,
               u_trace = [OtaBegin ESP_OK]\<rparr>"
  have r0: "receiving ?st0" by (simp add: receiving_def)
  from True have eq: "update_post_handler req env es = receive_and_finalize req env ?st0 es"
    for es by (simp add: update_post_handler_def)
  show ?thesis
  proof (cases evs)
    case Nil
    then show ?thesis by (simp add: eq stop_def)
  next
    case (Cons ev rest)
    show ?thesis
    proof (cases ev)
      case (Data d)
      have "receiving (?st0\<lparr>u_mem := recv_into (u_mem ?st0) d\<rparr>)"
        by (simp add: receiving_def)
      from receive_body_extend [OF this] Cons Data show ?thesis by (simp add: eq)
    next
      case Closed
      from receive_body_extend [OF r0] Cons Closed show ?thesis by (simp add: eq)
    next
      case Timeout
      with Cons show ?thesis by (simp add: eq)
    next
      case SockErr
      with Cons show ?thesis by (simp add: eq)
    qed
  qed
qed

lemma of_nat_size_t_mono:
  "a \<le> b \<Longrightarrow> b < 2 ^ 32 \<Longrightarrow> (of_nat a :: size_t) \<le> of_nat b"
  by (simp add: of_nat_word_less_eq_iff take_bit_nat_eq_self)

lemma run_small_region:
  "update_post_handler (upload_req 0) small_region chunks_marker_whole =
     \<lparr>fin = Returned ESP_ERR_INVALID_ARG,
      trace = [OtaBegin ESP_OK, OtaWrite [CHR 0xE9, CHR 0x01] ESP_OK,
               OtaWrite [CHR 0x02] ESP_ERR_INVALID_ARG, OtaAbort,
               Respond ''500 Internal Server Error'' ''OTA write failed''],
      flash = [CHR 0xE9, CHR 0x01], received = 2\<rparr>"
  by (simp add: small_region_def chunks_marker_whole_def upload_defs handler_defs char_defs
      code_defs)

text \<open>
  Claim C8. At every point of every run the counter \<open>received\<close> is the number of bytes
  of the writes the storage layer has accepted (as a \<open>size_t\<close>), so each accepted write
  advances it by exactly the bytes written; the accepted bytes of a run are a prefix of
  those of any longer run, and the counter never decreases (below 4 GiB, where a
  \<open>size_t\<close> does not wrap). A write the storage layer rejects, for whatever reason, ends
  the run: the session is aborted with \<open>esp_ota_abort\<close>, the client is answered 500,
  the handler returns an error, the validation is never reached and the boot target is
  never switched.
\<close>

theorem accepted_writes_counted_rejected_write_aborts:
  "flash (update_post_handler req env evs) = accepted_bytes (trace (update_post_handler req env evs))
   \<and> received (update_post_handler req env evs)
       = of_nat (length (flash (update_post_handler req env evs)))
   \<and> prefix (flash (update_post_handler req env evs))
        (flash (update_post_handler req env (evs @ later)))
   \<and> (length (flash (update_post_handler req env (evs @ later))) < 2 ^ 32 \<longrightarrow>
        received (update_post_handler req env evs)
          \<le> received (update_post_handler req env (evs @ later)))
   \<and> (list_ex rejected (trace (update_post_handler req env evs)) \<longrightarrow>
        OtaAbort \<in> set (trace (update_post_handler req env evs))
        \<and> failed (fin (update_post_handler req env evs))
        \<and> client_status (trace (update_post_handler req env evs))
            = Some ''500 Internal Server Error''
        \<and> \<not> list_ex is_set_boot (trace (update_post_handler req env evs))
        \<and> PartitionRead \<notin> set (trace (update_post_handler req env evs)))"
proof -
  note c = handler_counts [of req env evs] and c' = handler_counts [of req env "evs @ later"]
  note e = handler_extend [of req env evs later]
  have "received (update_post_handler req env evs)
          \<le> received (update_post_handler req env (evs @ later))"
    if "length (flash (update_post_handler req env (evs @ later))) < 2 ^ 32"
  proof -
    from e have "length (flash (update_post_handler req env evs))
        \<le> length (flash (update_post_handler req env (evs @ later)))"
      by (rule prefix_length_le)
    from of_nat_size_t_mono [OF this that] c c' show ?thesis by simp
  qed
  with c e show ?thesis by blast
qed

theorem accepted_writes_counted_rejected_write_aborts_witness:
  "list_ex rejected (trace (update_post_handler (upload_req 0) small_region chunks_marker_whole))
   \<and> OtaAbort \<in> set (trace (update_post_handler (upload_req 0) small_region
                               chunks_marker_whole))
   \<and> \<not> list_ex is_set_boot (trace (update_post_handler (upload_req 0) small_region
                                       chunks_marker_whole))
   \<and> received (update_post_handler (upload_req 0) small_region chunks_marker_whole) = 2"
proof -
  have a: "list_ex rejected (trace (update_post_handler (upload_req 0) small_region
             chunks_marker_whole))"
    by (simp add: run_small_region code_defs)
  have b: "length (flash (update_post_handler (upload_req 0) small_region
             (chunks_marker_whole @ []))) < 2 ^ 32"
    by (simp add: run_small_region)
  have c: "flash (update_post_handler (upload_req 0) small_region chunks_marker_whole)
             = [CHR 0xE9, CHR 0x01]"
    by (simp add: run_small_region)
  from accepted_writes_counted_rejected_write_aborts
    [of "upload_req 0" small_region chunks_marker_whole "[]"] a b c
  show ?thesis by simp
qed

subsection \<open>Boundary markers that reach the flash\<close>

lemma run_marker_split:
  "update_post_handler (upload_req 0) (flash_platform 100 ESP_OK) chunks_marker_split =
     \<lparr>fin = Restarted,
      trace = [OtaBegin ESP_OK,
               OtaWrite (firmware3 @ CRLF @ ''-'') ESP_OK,
               OtaWrite (''-X--'' @ CRLF) ESP_OK, PartitionRead, OtaEnd ESP_OK,
               Respond ''200 OK'' ''Firmware update successful! Device will reboot...'',
               Delay 2000, SetBoot ESP_OK, Delay 1000, Restart],
      flash = firmware3 @ final_marker ''X'', received = 12\<rparr>"
  by (simp add: chunks_marker_split_def upload_defs handler_defs char_defs code_defs)

lemma run_one_byte:
  "update_post_handler (upload_req 0) (flash_platform 100 ESP_OK) chunks_one_byte =
     \<lparr>fin = Returned ESP_ERR_INVALID_ARG,
      trace = [OtaBegin ESP_OK, OtaAbort,
               Respond ''400 Bad Request'' ''Invalid multipart data format''],
      flash = [], received = 0\<rparr>"
  by (simp add: chunks_one_byte_def upload_defs handler_defs char_defs code_defs)

lemma run_single:
  "update_post_handler (upload_req 0) (flash_platform 100 ESP_OK) chunks_single =
     \<lparr>fin = Restarted,
      trace = [OtaBegin ESP_OK, OtaWrite (firmware3 @ final_marker ''X'') ESP_OK,
               PartitionRead, OtaEnd ESP_OK,
               Respond ''200 OK'' ''Firmware update successful! Device will reboot...'',
               Delay 2000, SetBoot ESP_OK, Delay 1000, Restart],
      flash = firmware3 @ final_marker ''X'', received = 12\<rparr>"
  by (simp add: chunks_single_def upload_defs handler_defs char_defs code_defs)

lemma run_marker_prefix:
  "update_post_handler (upload_req 0) (flash_platform 100 ESP_OK) chunks_marker_prefix =
     \<lparr>fin = Blocked,
      trace = [OtaBegin ESP_OK, OtaWrite [CHR 0xE9, CHR 0x01] ESP_OK,
               OtaWrite ([CHR 0x02] @ CRLF @ ''--'') ESP_OK],
      flash = firmware3 @ CRLF @ ''--'', received = 7\<rparr>"
  by (simp add: chunks_marker_prefix_def upload_defs handler_defs char_defs code_defs)

text \<open>
  Claim C1 fails on the code. Two partitions of \<open>wrap_multipart firmware3 ''X''\<close>: with
  the final marker split after its first dash, the handler writes the image followed by
  the whole marker and commits it; with one byte per chunk, the handler rejects the upload
  with 400 and writes nothing.
\<close>

theorem split_marker_reaches_flash:
  "body_of chunks_marker_split = wrap_multipart firmware3 ''X''
   \<and> flash (update_post_handler (upload_req 0) (flash_platform 100 ESP_OK)
              chunks_marker_split) = firmware3 @ final_marker ''X''
   \<and> flash (update_post_handler (upload_req 0) (flash_platform 100 ESP_OK)
              chunks_marker_split) \<noteq> firmware3
   \<and> fin (update_post_handler (upload_req 0) (flash_platform 100 ESP_OK)
            chunks_marker_split) = Restarted
   \<and> body_of chunks_one_byte = wrap_multipart firmware3 ''X''
   \<and> flash (update_post_handler (upload_req 0) (flash_platform 100 ESP_OK)
              chunks_one_byte) = []
   \<and> fin (update_post_handler (upload_req 0) (flash_platform 100 ESP_OK)
            chunks_one_byte) = Returned ESP_ERR_INVALID_ARG"
proof -
  have a: "body_of chunks_marker_split = wrap_multipart firmware3 ''X''"
    by (simp add: body_of_def chunks_marker_split_def upload_defs char_defs)
  have b: "body_of chunks_one_byte = wrap_multipart firmware3 ''X''"
    by (simp add: body_of_def chunks_one_byte_def upload_defs char_defs)
  have c: "firmware3 @ final_marker ''X'' \<noteq> firmware3"
    by (simp add: final_marker_def char_defs)
  from a b c show ?thesis by (simp add: run_marker_split run_one_byte)
qed

text \<open>
  Claim C2 fails on the code. When the whole multipart body arrives in the first chunk,
  everything after the part headers is written: the image, then the final marker with
  its CRLF and dashes, and the result is committed.
\<close>

theorem first_chunk_marker_reaches_flash:
  "body_of chunks_single = wrap_multipart firmware3 ''X''
   \<and> flash (update_post_handler (upload_req 0) (flash_platform 100 ESP_OK) chunks_single)
       = firmware3 @ CRLF @ ''--X--'' @ CRLF
   \<and> sublist (CRLF @ ''--X--'' @ CRLF)
        (flash (update_post_handler (upload_req 0) (flash_platform 100 ESP_OK) chunks_single))
   \<and> sublist ''X''
        (flash (update_post_handler (upload_req 0) (flash_platform 100 ESP_OK) chunks_single))
   \<and> fin (update_post_handler (upload_req 0) (flash_platform 100 ESP_OK) chunks_single)
       = Restarted"
proof -
  have a: "body_of chunks_single = wrap_multipart firmware3 ''X''"
    by (simp add: body_of_def chunks_single_def)
  have f: "firmware3 @ final_marker ''X'' = firmware3 @ CRLF @ ''--X--'' @ CRLF"
    by (simp add: final_marker_def)
  have s1: "sublist (CRLF @ ''--X--'' @ CRLF) (firmware3 @ CRLF @ ''--X--'' @ CRLF)"
    by (rule sublist_append_leftI)
  have "sublist ''X'' ((firmware3 @ CRLF @ ''--'') @ ''X'' @ (''--'' @ CRLF))"
    by (rule sublist_appendI)
  then have s2: "sublist ''X'' (firmware3 @ CRLF @ ''--X--'' @ CRLF)" by simp
  from a f s1 s2 show ?thesis by (simp add: run_single)
qed

text \<open>
  Claim C3 fails on the code. The second chunk ends with CRLF and the two dashes that
  begin the final marker, and contains no whole marker. The handler writes all five
  bytes of it at once and then waits for the next read: nothing is held back, and the
  handler has no variable that could carry bytes to the next chunk.
\<close>

theorem no_bytes_held_back:
  "update_post_handler (upload_req 0) (flash_platform 100 ESP_OK) chunks_marker_prefix =
     \<lparr>fin = Blocked,
      trace = [OtaBegin ESP_OK, OtaWrite [CHR 0xE9, CHR 0x01] ESP_OK,
               OtaWrite ([CHR 0x02] @ CRLF @ ''--'') ESP_OK],
      flash = firmware3 @ CRLF @ ''--'', received = 7\<rparr>
   \<and> min (length ([CHR 0x02] @ CRLF @ ''--'')) (length ''X'' + 4) = 5"
  by (simp add: run_marker_prefix CRLF_def)

end
